theory Spec2Isabelle
  imports Main "HOL-Library.Multiset" "HOL-Library.Sublist"
begin

section \<open>Python values used by utils_keyinput.py\<close>

text \<open>
  A Python \<open>str\<close> is a sequence of Unicode code points, so a text is a list of natural
  numbers; \<open>len\<close> is \<open>length\<close>. Literals of the source that are ASCII are written
  through \<open>asc\<close>; the Korean literals are written as their code points.
\<close>

type_synonym pystr = "nat list"

definition asc :: "string \<Rightarrow> pystr" where
  "asc s = map of_char s"

text \<open>The exceptions that the modelled functions can see.\<close>

datatype exn =
    FileNotFoundError
  | PermissionError
  | UnicodeDecodeError
  | JSONDecodeError
  | KeyError
  | NameError
  | SyntaxError
  | RuntimeError

text \<open>
  The interpreter's built-ins that the module calls but does not define are parameters:
  the Unicode character classes of \<open>re\<close> and of \<open>str.split\<close>/\<open>str.strip\<close>
  (\<open>\w\<close>, \<open>\s\<close>, \<open>\d\<close>), \<open>str.lower\<close>, the iteration order of a \<open>set\<close> of strings
  (\<open>list(set(ws))\<close>), \<open>str\<close> and \<open>eval\<close> on a corpus record, \<open>json.dumps\<close>, the
  formatting of a list of strings inside an f-string, and the text of an exception.
\<close>

record 'r py =
  py_isword :: "nat \<Rightarrow> bool"
  py_isspace :: "nat \<Rightarrow> bool"
  py_isdigit :: "nat \<Rightarrow> bool"
  py_lower :: "pystr \<Rightarrow> pystr"
  py_set_list :: "pystr list \<Rightarrow> pystr list"
  py_str :: "'r \<Rightarrow> pystr"
  py_eval :: "pystr \<Rightarrow> exn + 'r"
  py_dumps :: "'r \<Rightarrow> pystr"
  py_format_list :: "pystr list \<Rightarrow> pystr"
  py_exn_text :: "exn \<Rightarrow> pystr"

text \<open>
  The state of the process: the two attributes of the \<open>HSDataManager\<close> instance
  (\<open>self.data\<close>, \<open>self.search_index\<close>; a \<open>dict\<close> keeps insertion order, so both are
  association lists), the module global \<open>general_explanation\<close>, the key given to
  \<open>genai.configure\<close>, the paths passed to \<open>open\<close> so far and the lines printed so
  far (oldest first).
\<close>

record 'r proc =
  data :: "(pystr \<times> 'r list) list"
  search_index :: "(pystr \<times> (pystr \<times> 'r) list) list"
  general_explanation :: "pystr list"
  api_key :: "pystr option"
  opened :: "pystr list"
  printed :: "pystr list"

text \<open>
  A JSON object whose values are strings (an entry of a reference document), and the
  files as \<open>json.load\<close> sees them: for a path, the parsed document or the exception
  that \<open>open\<close> or \<open>json.load\<close> raises. Corpus files hold records, reference files
  hold entries.
\<close>

type_synonym jobj = "(pystr \<times> pystr) list"

record 'r disk =
  corpus_file :: "pystr \<Rightarrow> exn + 'r list"
  ref_file :: "pystr \<Rightarrow> exn + jobj list"

text \<open>An element of the list that \<open>search\<close> returns: \<open>{'source': ..., 'item': ...}\<close>.\<close>

record 'r hit =
  source :: pystr
  item :: 'r

subsection \<open>Dictionaries\<close>

text \<open>\<open>d.get(k, dflt)\<close>: a read, also on a \<open>defaultdict\<close>.\<close>

definition dict_get :: "('k \<times> 'v) list \<Rightarrow> 'k \<Rightarrow> 'v \<Rightarrow> 'v" where
  "dict_get d k dflt = (case map_of d k of None \<Rightarrow> dflt | Some v \<Rightarrow> v)"

text \<open>\<open>d[k] = v\<close>: an existing key keeps its place, a new key goes last.\<close>

fun dict_set :: "'k \<Rightarrow> 'v \<Rightarrow> ('k \<times> 'v) list \<Rightarrow> ('k \<times> 'v) list" where
  "dict_set k v [] = [(k, v)]"
| "dict_set k v ((k', v') # kvs) =
     (if k = k' then (k', v) # kvs else (k', v') # dict_set k v kvs)"

text \<open>\<open>d[k] += 1\<close> on a \<open>defaultdict(int)\<close>: a missing key starts at 0.\<close>

fun dict_incr :: "'k \<Rightarrow> ('k \<times> int) list \<Rightarrow> ('k \<times> int) list" where
  "dict_incr k [] = [(k, 0 + 1)]"
| "dict_incr k ((k', n) # kvs) =
     (if k = k' then (k', n + 1) # kvs else (k', n) # dict_incr k kvs)"

text \<open>\<open>d[k].append(v)\<close> on a \<open>defaultdict(list)\<close>: a missing key is inserted with
  the empty list first.\<close>

fun dict_append :: "'k \<Rightarrow> 'v \<Rightarrow> ('k \<times> 'v list) list \<Rightarrow> ('k \<times> 'v list) list" where
  "dict_append k v [] = [(k, [] @ [v])]"
| "dict_append k v ((k', b) # kvs) =
     (if k = k' then (k', b @ [v]) # kvs else (k', b) # dict_append k v kvs)"

text \<open>\<open>d[k]\<close> on a plain \<open>dict\<close>: a missing key raises.\<close>

definition dict_getitem :: "('k \<times> 'v) list \<Rightarrow> 'k \<Rightarrow> exn + 'v" where
  "dict_getitem d k = (case map_of d k of None \<Rightarrow> Inl KeyError | Some v \<Rightarrow> Inr v)"

subsection \<open>Statements\<close>

text \<open>
  A statement runs on the process state and either completes with a value or raises.
  \<open>try_except\<close> is \<open>try: body except Exception as e: handler\<close>;
  \<open>try_except_only c\<close> catches the class \<open>c\<close> alone; \<open>for_loop\<close> runs its body
  for each element and stops at the first exception that leaves the body.
\<close>

type_synonym ('a, 's) stmt = "'s \<Rightarrow> (exn + 'a) \<times> 's"

definition try_except :: "('a, 's) stmt \<Rightarrow> (exn \<Rightarrow> ('a, 's) stmt) \<Rightarrow> ('a, 's) stmt" where
  "try_except body handler s =
     (case body s of (Inl e, s') \<Rightarrow> handler e s' | (Inr v, s') \<Rightarrow> (Inr v, s'))"

definition try_except_only ::
  "exn \<Rightarrow> ('a, 's) stmt \<Rightarrow> (exn \<Rightarrow> ('a, 's) stmt) \<Rightarrow> ('a, 's) stmt" where
  "try_except_only c body handler s =
     (case body s of
        (Inl e, s') \<Rightarrow> if e = c then handler e s' else (Inl e, s')
      | (Inr v, s') \<Rightarrow> (Inr v, s'))"

fun for_loop :: "('a \<Rightarrow> (unit, 's) stmt) \<Rightarrow> 'a list \<Rightarrow> (unit, 's) stmt" where
  "for_loop body [] s = (Inr (), s)"
| "for_loop body (x # xs) s =
     (case body x s of (Inl e, s') \<Rightarrow> (Inl e, s') | (Inr _, s') \<Rightarrow> for_loop body xs s')"

definition print_line :: "pystr \<Rightarrow> 'r proc \<Rightarrow> 'r proc" where
  "print_line t s = s\<lparr>printed := printed s @ [t]\<rparr>"

text \<open>\<open>with open(path, 'r', encoding='utf-8') as f: json.load(f)\<close>, on a corpus file
  and on a reference file.\<close>

definition load_corpus_json :: "'r disk \<Rightarrow> pystr \<Rightarrow> ('r list, 'r proc) stmt" where
  "load_corpus_json fs path s = (corpus_file fs path, s\<lparr>opened := opened s @ [path]\<rparr>)"

definition load_ref_json :: "'r disk \<Rightarrow> pystr \<Rightarrow> (jobj list, 'r proc) stmt" where
  "load_ref_json fs path s = (ref_file fs path, s\<lparr>opened := opened s @ [path]\<rparr>)"

subsection \<open>Strings and slices\<close>

text \<open>\<open>s.split()\<close>: the maximal runs of characters that are not whitespace.\<close>

fun str_split :: "(nat \<Rightarrow> bool) \<Rightarrow> pystr \<Rightarrow> pystr \<Rightarrow> pystr list" where
  "str_split sp cur [] = (if cur = [] then [] else [cur])"
| "str_split sp cur (c # cs) =
     (if sp c then (if cur = [] then str_split sp [] cs else cur # str_split sp [] cs)
      else str_split sp (cur @ [c]) cs)"

text \<open>\<open>s.strip()\<close>.\<close>

definition str_strip :: "(nat \<Rightarrow> bool) \<Rightarrow> pystr \<Rightarrow> pystr" where
  "str_strip sp t = rev (dropWhile sp (rev (dropWhile sp t)))"

text \<open>\<open>sep.join(xs)\<close>.\<close>

fun str_join :: "pystr \<Rightarrow> pystr list \<Rightarrow> pystr" where
  "str_join sep [] = []"
| "str_join sep [x] = x"
| "str_join sep (x # y # ys) = x @ sep @ str_join sep (y # ys)"

text \<open>\<open>str(n)\<close> for a natural number, as an f-string renders it.\<close>

fun str_nat :: "nat \<Rightarrow> pystr" where
  "str_nat n = (if n < 10 then [48 + n] else str_nat (n div 10) @ [48 + n mod 10])"

declare str_nat.simps [simp del]

text \<open>\<open>s.replace(old, new)\<close> for a non-empty \<open>old\<close>: left to right, without overlap;
  \<open>skip\<close> counts the characters of a replaced occurrence still to pass.\<close>

fun str_replace_from :: "pystr \<Rightarrow> pystr \<Rightarrow> nat \<Rightarrow> pystr \<Rightarrow> pystr" where
  "str_replace_from old new skip [] = []"
| "str_replace_from old new skip (c # cs) =
     (if skip > 0 then str_replace_from old new (skip - 1) cs
      else if prefix old (c # cs) then new @ str_replace_from old new (length old - 1) cs
      else c # str_replace_from old new 0 cs)"

definition str_replace :: "pystr \<Rightarrow> pystr \<Rightarrow> pystr \<Rightarrow> pystr" where
  "str_replace old new t = str_replace_from old new 0 t"

text \<open>\<open>next((x for x in xs if P x), dflt)\<close>.\<close>

definition next_or :: "('a \<Rightarrow> bool) \<Rightarrow> 'a list \<Rightarrow> 'a \<Rightarrow> 'a" where
  "next_or P xs dflt = (case find P xs of None \<Rightarrow> dflt | Some x \<Rightarrow> x)"

text \<open>\<open>xs[:m]\<close>: a negative bound counts from the end.\<close>

definition slice_to :: "'a list \<Rightarrow> int \<Rightarrow> 'a list" where
  "slice_to xs m =
     (if 0 \<le> m then take (nat m) xs else take (length xs - nat (- m)) xs)"

text \<open>A list comprehension whose element expression can raise: the first exception
  leaves the comprehension.\<close>

fun map_exn :: "('a \<Rightarrow> exn + 'b) \<Rightarrow> 'a list \<Rightarrow> exn + 'b list" where
  "map_exn f [] = Inr []"
| "map_exn f (x # xs) =
     (case f x of
        Inl e \<Rightarrow> Inl e
      | Inr y \<Rightarrow> (case map_exn f xs of Inl e \<Rightarrow> Inl e | Inr ys \<Rightarrow> Inr (y # ys)))"

section \<open>HSDataManager\<close>

subsection \<open>\_extract\_keywords\<close>

text \<open>
  \<open>words = re.sub(r'[^\w\s]', ' ', text).split()\<close>, then
  \<open>list(set(word for word in words if len(word) >= 2))\<close>.
\<close>

definition re_sub_nonword :: "'r py \<Rightarrow> pystr \<Rightarrow> pystr" where
  "re_sub_nonword env t =
     map (\<lambda>c. if \<not> (py_isword env c \<or> py_isspace env c) then 32 else c) t"

definition extract_keywords :: "'r py \<Rightarrow> pystr \<Rightarrow> pystr list" where
  "extract_keywords env t =
     (let words = str_split (py_isspace env) [] (re_sub_nonword env t)
      in py_set_list env (filter (\<lambda>word. length word \<ge> 2) words))"

subsection \<open>search\<close>

text \<open>
  The two nested loops of \<open>search\<close> that fill \<open>results\<close>, a \<open>defaultdict(int)\<close> keyed
  by \<open>(source, str(item))\<close>; the bucket of a keyword is read with
  \<open>self.search_index.get(keyword, [])\<close>.
\<close>

definition score_results ::
  "'r py \<Rightarrow> 'r proc \<Rightarrow> pystr list \<Rightarrow> ((pystr \<times> pystr) \<times> int) list" where
  "score_results env s query_keywords =
     foldl (\<lambda>results keyword.
              foldl (\<lambda>results (src, it). dict_incr (src, py_str env it) results)
                    results (dict_get (search_index s) keyword []))
           [] query_keywords"

text \<open>
  \<open>sorted(results.items(), key=lambda x: x[1], reverse=True)\<close>: Python's sort is
  stable, also with \<open>reverse=True\<close>, so it is the stable sort by descending count.
\<close>

definition sorted_desc :: "('k \<times> int) list \<Rightarrow> ('k \<times> int) list" where
  "sorted_desc results = sort_key (\<lambda>x. - snd x) results"

definition make_hit :: "'r py \<Rightarrow> (pystr \<times> pystr) \<times> int \<Rightarrow> exn + 'r hit" where
  "make_hit env x =
     (case x of ((src, item_str), _) \<Rightarrow>
        (case py_eval env item_str of
           Inl e \<Rightarrow> Inl e
         | Inr it \<Rightarrow> Inr \<lparr>source = src, item = it\<rparr>))"

definition search ::
  "'r py \<Rightarrow> pystr \<Rightarrow> int \<Rightarrow> 'r proc \<Rightarrow> (exn + 'r hit list) \<times> 'r proc" where
  "search env query max_results s =
     (let query_keywords = extract_keywords env query;
          results = score_results env s query_keywords;
          sorted_results = sorted_desc results
      in (map_exn (make_hit env) (slice_to sorted_results max_results), s))"


subsection \<open>get\_relevant\_context\<close>

text \<open>
  Each hit becomes the f-string
  \<open>"<U+CD9C><U+CC98>: {result['source']}\n<U+D56D><U+BAA9>: {json.dumps(result['item'], ensure_ascii=False)}"\<close>;
  the blocks are joined by \<open>"\n\n"\<close>. \<open>self.search(query)\<close> uses the default
  \<open>max_results = 5\<close>.
\<close>

definition context_block :: "'r py \<Rightarrow> 'r hit \<Rightarrow> pystr" where
  "context_block env result =
     [52636, 52376, 58, 32] @ source result
       @ [10, 54637, 47785, 58, 32] @ py_dumps env (item result)"

definition get_relevant_context :: "'r py \<Rightarrow> pystr \<Rightarrow> (pystr, 'r proc) stmt" where
  "get_relevant_context env query s =
     (case search env query 5 s of
        (Inl e, s') \<Rightarrow> (Inl e, s')
      | (Inr results, s') \<Rightarrow>
          (let context = foldl (\<lambda>context result. context @ [context_block env result]) [] results
           in (Inr (str_join [10, 10] context), s')))"

subsection \<open>load\_all\_data, build\_search\_index and the constructor\<close>

text \<open>\<open>HS<U+BD84><U+B958><U+C0AC><U+B840>_part\<close>, the stem of the ten case files.\<close>

definition cases_part :: pystr where
  "cases_part = [72, 83, 48516, 47448, 49324, 47168, 95, 112, 97, 114, 116]"

text \<open>\<open>['knowledge/HS<U+C704><U+C6D0><U+D68C>.json', 'knowledge/HS<U+D611><U+C758><U+D68C>.json']\<close>.\<close>

definition other_files :: "pystr list" where
  "other_files =
     [asc ''knowledge/HS'' @ [50948, 50896, 54924] @ asc ''.json'',
      asc ''knowledge/HS'' @ [54801, 51032, 54924] @ asc ''.json'']"

text \<open>The body of the first loop, for \<open>i\<close> in \<open>range(1, 11)\<close>.\<close>

definition load_case_part :: "'r disk \<Rightarrow> nat \<Rightarrow> (unit, 'r proc) stmt" where
  "load_case_part fs i =
     try_except_only FileNotFoundError
       (\<lambda>s. case load_corpus_json fs (asc ''knowledge/'' @ cases_part @ str_nat i @ asc ''.json'') s of
               (Inl e, s') \<Rightarrow> (Inl e, s')
             | (Inr items, s') \<Rightarrow>
                 (Inr (), s'\<lparr>data := dict_set (cases_part @ str_nat i) items (data s')\<rparr>))
       (\<lambda>e s. (Inr (), print_line (asc ''Warning: '' @ cases_part @ str_nat i
                                      @ asc ''.json not found'') s))"

text \<open>The body of the second loop, for \<open>file\<close> in \<open>other_files\<close>.\<close>

definition load_other_file :: "'r disk \<Rightarrow> pystr \<Rightarrow> (unit, 'r proc) stmt" where
  "load_other_file fs file =
     try_except_only FileNotFoundError
       (\<lambda>s. case load_corpus_json fs file s of
               (Inl e, s') \<Rightarrow> (Inl e, s')
             | (Inr items, s') \<Rightarrow>
                 (Inr (), s'\<lparr>data := dict_set (str_replace (asc ''.json'') [] file) items (data s')\<rparr>))
       (\<lambda>e s. (Inr (), print_line (asc ''Warning: '' @ file @ asc '' not found'') s))"

definition load_all_data :: "'r disk \<Rightarrow> (unit, 'r proc) stmt" where
  "load_all_data fs s =
     (case for_loop (load_case_part fs) [1..<11] s of
        (Inl e, s') \<Rightarrow> (Inl e, s')
      | (Inr _, s') \<Rightarrow> for_loop (load_other_file fs) other_files s')"

text \<open>
  The three nested loops of \<open>build_search_index\<close>:
  \<open>self.search_index[keyword].append((source, item))\<close> for every keyword of
  \<open>str(item)\<close>, for every item of every source of \<open>self.data\<close>.
\<close>

definition index_item ::
  "'r py \<Rightarrow> pystr \<Rightarrow> (pystr \<times> (pystr \<times> 'r) list) list \<Rightarrow> 'r
     \<Rightarrow> (pystr \<times> (pystr \<times> 'r) list) list" where
  "index_item env src idx it =
     (let keywords = extract_keywords env (py_str env it)
      in foldl (\<lambda>idx keyword. dict_append keyword (src, it) idx) idx keywords)"

definition build_search_index :: "'r py \<Rightarrow> 'r proc \<Rightarrow> 'r proc" where
  "build_search_index env s =
     s\<lparr>search_index :=
         foldl (\<lambda>idx (src, items). foldl (index_item env src) idx items)
               (search_index s) (data s)\<rparr>"

text \<open>\<open>HSDataManager.__init__\<close>.\<close>

definition manager_init :: "'r py \<Rightarrow> 'r disk \<Rightarrow> (unit, 'r proc) stmt" where
  "manager_init env fs s =
     (case load_all_data fs (s\<lparr>data := [], search_index := []\<rparr>) of
        (Inl e, s') \<Rightarrow> (Inl e, s')
      | (Inr _, s') \<Rightarrow> (Inr (), build_search_index env s'))"

section \<open>Code extraction\<close>

text \<open>
  \<open>HS_PATTERN\<close> is
  \<open>\b(?:HS)?\s*\d{4}(?:[.-]\d{2}(?:[.-]\d{2}(?:[.-]\d{2})?)?)?\b\<close> with
  \<open>re.IGNORECASE\<close>. The matcher follows the backtracking order of \<open>re\<close>: every
  optional part is tried first with its content (greedy) and, if the rest of the pattern
  then fails, without it. Each function returns the number of characters that the rest of
  the pattern consumes from the given position, or \<open>None\<close> when it cannot match.
  \<open>prev\<close> is the character before the position (\<open>None\<close> at the start of the text).
\<close>

text \<open>\<open>\b\<close>: exactly one of the two neighbouring characters is a word character.\<close>

definition word_boundary :: "'r py \<Rightarrow> nat option \<Rightarrow> pystr \<Rightarrow> bool" where
  "word_boundary env prev rest =
     ((case prev of None \<Rightarrow> False | Some c \<Rightarrow> py_isword env c)
        \<noteq> (case rest of [] \<Rightarrow> False | c # _ \<Rightarrow> py_isword env c))"

text \<open>The nested optional groups \<open>(?:[.-]\d{2} ... )?\<close>, \<open>n\<close> levels deep, and the
  final \<open>\b\<close>.\<close>

fun hs_groups :: "'r py \<Rightarrow> nat \<Rightarrow> nat option \<Rightarrow> pystr \<Rightarrow> nat option" where
  "hs_groups env 0 prev rest = (if word_boundary env prev rest then Some 0 else None)"
| "hs_groups env (Suc n) prev rest =
     (case (case rest of
              sep # d1 # d2 # rest' \<Rightarrow>
                if (sep = 46 \<or> sep = 45) \<and> py_isdigit env d1 \<and> py_isdigit env d2
                then map_option (\<lambda>k. 3 + k) (hs_groups env n (Some d2) rest')
                else None
            | _ \<Rightarrow> None) of
        Some k \<Rightarrow> Some k
      | None \<Rightarrow> if word_boundary env prev rest then Some 0 else None)"

text \<open>\<open>\d{4}\<close> and what follows.\<close>

definition hs_digits :: "'r py \<Rightarrow> pystr \<Rightarrow> nat option" where
  "hs_digits env rest =
     (case rest of
        d1 # d2 # d3 # d4 # rest' \<Rightarrow>
          if py_isdigit env d1 \<and> py_isdigit env d2 \<and> py_isdigit env d3 \<and> py_isdigit env d4
          then map_option (\<lambda>k. 4 + k) (hs_groups env 3 (Some d4) rest')
          else None
      | _ \<Rightarrow> None)"

text \<open>\<open>\s*\<close> and what follows.\<close>

fun hs_spaces :: "'r py \<Rightarrow> pystr \<Rightarrow> nat option" where
  "hs_spaces env [] = hs_digits env []"
| "hs_spaces env (c # cs) =
     (if py_isspace env c
      then (case hs_spaces env cs of Some k \<Rightarrow> Some (1 + k) | None \<Rightarrow> hs_digits env (c # cs))
      else hs_digits env (c # cs))"

text \<open>
  The whole pattern at one position. Under \<open>re.IGNORECASE\<close> the literal \<open>H\<close> matches
  \<open>H\<close> and \<open>h\<close>, and the literal \<open>S\<close> matches \<open>S\<close>, \<open>s\<close> and U+017F.
\<close>

definition hs_match_at :: "'r py \<Rightarrow> nat option \<Rightarrow> pystr \<Rightarrow> nat option" where
  "hs_match_at env prev rest =
     (if \<not> word_boundary env prev rest then None
      else case (case rest of
                   h # s # rest' \<Rightarrow>
                     if (h = 72 \<or> h = 104) \<and> (s = 83 \<or> s = 115 \<or> s = 383)
                     then map_option (\<lambda>k. 2 + k) (hs_spaces env rest')
                     else None
                 | _ \<Rightarrow> None) of
             Some k \<Rightarrow> Some k
           | None \<Rightarrow> hs_spaces env rest)"

text \<open>
  \<open>HS_PATTERN.findall(text)\<close>: the matches from left to right, the search resuming at
  the end of each match; \<open>skip\<close> counts the characters of the last match still to pass.
  The pattern has no capturing group, so each result is the whole matched text.
\<close>

fun hs_findall :: "'r py \<Rightarrow> nat option \<Rightarrow> nat \<Rightarrow> pystr \<Rightarrow> pystr list" where
  "hs_findall env prev skip [] = []"
| "hs_findall env prev skip (c # cs) =
     (if skip > 0 then hs_findall env (Some c) (skip - 1) cs
      else case hs_match_at env prev (c # cs) of
             Some k \<Rightarrow> take k (c # cs) # hs_findall env (Some c) (k - 1) cs
           | None \<Rightarrow> hs_findall env (Some c) 0 cs)"

text \<open>The loop of \<open>extract_hs_codes\<close>; \<open>re.sub(r'\D', '', raw)\<close> keeps the digits.\<close>

fun collect_codes :: "'r py \<Rightarrow> pystr list \<Rightarrow> pystr list \<Rightarrow> pystr list" where
  "collect_codes env [] hs_codes = hs_codes"
| "collect_codes env (raw # matches) hs_codes =
     (let code = filter (py_isdigit env) raw
      in if code \<noteq> [] \<and> code \<notin> set hs_codes
         then collect_codes env matches (hs_codes @ [code])
         else collect_codes env matches hs_codes)"

definition extract_hs_codes :: "'r py \<Rightarrow> pystr \<Rightarrow> pystr list" where
  "extract_hs_codes env t = collect_codes env (hs_findall env None 0 t) []"

section \<open>Explanations\<close>

subsection \<open>extract\_and\_store\_text and the module global\<close>

text \<open>The loop over the entries: \<open>f"{head1}\n{text}"\<close> is appended when
  \<open>head1 or text\<close>.\<close>

fun extract_entries :: "jobj list \<Rightarrow> pystr list \<Rightarrow> pystr list" where
  "extract_entries [] extracted_data = extracted_data"
| "extract_entries (entry # rest) extracted_data =
     (let head1 = dict_get entry (asc ''head1'') [];
          txt = dict_get entry (asc ''text'') []
      in if head1 \<noteq> [] \<or> txt \<noteq> []
         then extract_entries rest (extracted_data @ [head1 @ [10] @ txt])
         else extract_entries rest extracted_data)"

text \<open>The message printed by the handler starts with \<open><U+C624><U+B958> <U+BC1C><U+C0DD>: \<close>.\<close>

definition extract_and_store_text ::
  "'r py \<Rightarrow> 'r disk \<Rightarrow> pystr \<Rightarrow> (pystr list, 'r proc) stmt" where
  "extract_and_store_text env fs json_file =
     try_except
       (\<lambda>s. case load_ref_json fs json_file s of
               (Inl e, s') \<Rightarrow> (Inl e, s')
             | (Inr entries, s') \<Rightarrow> (Inr (extract_entries entries []), s'))
       (\<lambda>e s. (Inr [], print_line ([50724, 47448, 32, 48156, 49373, 58, 32] @ py_exn_text env e) s))"

text \<open>\<open>general_explanation = extract_and_store_text('knowledge/<U+D1B5><U+CE59>_grouped.json')\<close>,
  run when the module is imported.\<close>

definition general_rules_file :: pystr where
  "general_rules_file = asc ''knowledge/'' @ [53685, 52825] @ asc ''_grouped.json''"

definition module_init :: "'r py \<Rightarrow> 'r disk \<Rightarrow> (unit, 'r proc) stmt" where
  "module_init env fs s =
     (case extract_and_store_text env fs general_rules_file s of
        (Inl e, s') \<Rightarrow> (Inl e, s')
      | (Inr v, s') \<Rightarrow> (Inr (), s'\<lparr>general_explanation := v\<rparr>))"

subsection \<open>lookup\_hscode\<close>

text \<open>The three placeholders, \<open>{"text": "..."}\<close>, and the entry returned on an error.\<close>

definition section_placeholder :: jobj where
  "section_placeholder =
     [(asc ''text'', [54644, 45817, 32, 48512, 50640, 32, 45824, 54620, 32, 49444, 47749, 51012,
                      32, 52286, 51012, 32, 49688, 32, 50630, 49845, 45768, 45796, 46])]"

definition heading_placeholder :: jobj where
  "heading_placeholder =
     [(asc ''text'', [54644, 45817, 32, 47448, 50640, 32, 45824, 54620, 32, 49444, 47749, 51012,
                      32, 52286, 51012, 32, 49688, 32, 50630, 49845, 45768, 45796, 46])]"

definition subheading_placeholder :: jobj where
  "subheading_placeholder =
     [(asc ''text'', [54644, 45817, 32, 54840, 50640, 32, 45824, 54620, 32, 49444, 47749, 51012,
                      32, 52286, 51012, 32, 49688, 32, 50630, 49845, 45768, 45796, 46])]"

definition error_entry :: jobj where
  "error_entry =
     [(asc ''text'', [50724, 47448, 44032, 32, 48156, 49373, 54664, 49845, 45768, 45796, 46])]"

definition lookup_hscode ::
  "'r py \<Rightarrow> 'r disk \<Rightarrow> pystr \<Rightarrow> pystr \<Rightarrow> (jobj \<times> jobj \<times> jobj, 'r proc) stmt" where
  "lookup_hscode env fs hs_code json_file =
     try_except
       (\<lambda>s. case load_ref_json fs json_file s of
               (Inl e, s') \<Rightarrow> (Inl e, s')
             | (Inr entries, s') \<Rightarrow>
                 (let explanation = section_placeholder;
                      type_explanation = heading_placeholder;
                      number_explanation = subheading_placeholder;
                      explanation =
                        (if length hs_code \<ge> 2
                         then next_or (\<lambda>entry. dict_get entry (asc ''code'') [] = take 2 hs_code)
                                entries explanation
                         else explanation);
                      type_explanation =
                        (if length hs_code \<ge> 4
                         then next_or (\<lambda>entry. dict_get entry (asc ''code'') [] = take 4 hs_code)
                                entries type_explanation
                         else type_explanation);
                      number_explanation =
                        (if length hs_code \<ge> 6
                         then next_or (\<lambda>entry. dict_get entry (asc ''code'') [] = take 6 hs_code)
                                entries number_explanation
                         else number_explanation)
                  in (Inr (explanation, type_explanation, number_explanation), s')))
       (\<lambda>e s. (Inr (error_entry, error_entry, error_entry),
                print_line ([72, 83, 32, 53076, 46300, 32, 51312, 54924, 32, 50724, 47448, 58, 32]
                            @ py_exn_text env e) s))"

subsection \<open>get\_hs\_explanations\<close>

definition explanations_file :: pystr where
  "explanations_file = asc ''knowledge/grouped_11_end.json''"

text \<open>
  The text that one iteration appends to \<open>all_explanations\<close>; each \<open>x['text']\<close> raises
  \<open>KeyError\<close> when the entry has no such field. The list \<open>general_explanation\<close> is
  formatted inside the f-string as it is.
\<close>

definition explanation_block ::
  "'r py \<Rightarrow> pystr list \<Rightarrow> pystr \<Rightarrow> jobj \<Rightarrow> jobj \<Rightarrow> jobj \<Rightarrow> exn + pystr" where
  "explanation_block env general hs_code explanation type_explanation number_explanation =
     (case dict_getitem explanation (asc ''text'') of
        Inl e \<Rightarrow> Inl e
      | Inr t1 \<Rightarrow>
     (case dict_getitem type_explanation (asc ''text'') of
        Inl e \<Rightarrow> Inl e
      | Inr t2 \<Rightarrow>
     (case dict_getitem number_explanation (asc ''text'') of
        Inl e \<Rightarrow> Inl e
      | Inr t3 \<Rightarrow>
          Inr ([10, 10, 72, 83, 32, 53076, 46300, 32] @ hs_code
                 @ [50640, 32, 45824, 54620, 32, 54644, 49444, 58, 10]
               @ [54644, 49444, 49436, 32, 53685, 52825, 58, 10]
                 @ py_format_list env general @ [10, 10]
               @ [48512, 32, 54644, 49444, 58, 10] @ t1 @ [10, 10]
               @ [47448, 32, 54644, 49444, 58, 10] @ t2 @ [10, 10]
               @ [54840, 32, 54644, 49444, 58, 10] @ t3 @ [10]))))"

fun explanations_loop ::
  "'r py \<Rightarrow> 'r disk \<Rightarrow> pystr list \<Rightarrow> pystr \<Rightarrow> (pystr, 'r proc) stmt" where
  "explanations_loop env fs [] all_explanations s = (Inr all_explanations, s)"
| "explanations_loop env fs (hs_code # rest) all_explanations s =
     (case lookup_hscode env fs hs_code explanations_file s of
        (Inl e, s') \<Rightarrow> (Inl e, s')
      | (Inr (explanation, type_explanation, number_explanation), s') \<Rightarrow>
          if explanation \<noteq> [] \<and> type_explanation \<noteq> [] \<and> number_explanation \<noteq> []
          then (case explanation_block env (general_explanation s') hs_code
                       explanation type_explanation number_explanation of
                  Inl e \<Rightarrow> (Inl e, s')
                | Inr block \<Rightarrow> explanations_loop env fs rest (all_explanations @ block) s')
          else explanations_loop env fs rest all_explanations s')"

definition get_hs_explanations :: "'r py \<Rightarrow> 'r disk \<Rightarrow> pystr list \<Rightarrow> (pystr, 'r proc) stmt" where
  "get_hs_explanations env fs hs_codes s = explanations_loop env fs hs_codes [] s"

section \<open>Question classification\<close>

text \<open>
  The generative collaborator is a parameter: given the prompt,
  \<open>genai.GenerativeModel('gemini-2.0-flash').generate_content(prompt).text\<close> is a text
  or raises. \<open>prompt_head\<close> is the literal that precedes \<open>user_input\<close> in
  \<open>system_prompt\<close>; the literal after it is a newline and \<open><U+B2F5><U+BCC0>:\<close>.
\<close>

definition prompt_head :: pystr where
  "prompt_head =
     [10, 50500, 47000, 45716, 32, 72, 83, 32, 54408, 47785, 48516, 47448, 32, 51204,
      47928, 44032, 47484, 32, 50948, 54620, 32, 51656, 47928, 32, 50976, 54805, 32, 48516,
      47448, 32, 44592, 51456, 51077, 45768, 45796, 46, 10, 10, 51656, 47928, 32, 50976,
      54805, 58, 10, 49, 46, 32, 34, 119, 101, 98, 95, 115, 101, 97, 114, 99, 104, 34, 32,
      58, 32, 34, 45684, 49828, 34, 44, 32, 34, 52572, 44540, 34, 44, 32, 34, 46041, 54693,
      34, 44, 32, 34, 54644, 50808, 34, 44, 32, 34, 49328, 50629, 44, 32, 44592, 49696, 44,
      32, 47924, 50669, 46041, 54693, 34, 32, 46321, 32, 51068, 48152, 32, 51221, 48372,
      32, 53456, 49353, 51060, 32, 54596, 50836, 54620, 32, 44221, 50864, 46, 10, 50, 46,
      32, 34, 104, 115, 95, 99, 108, 97, 115, 115, 105, 102, 105, 99, 97, 116, 105, 111,
      110, 34, 58, 32, 72, 83, 32, 53076, 46300, 44, 32, 54408, 47785, 48516, 47448, 44,
      32, 44288, 49464, 44, 32, 49464, 50984, 32, 46321, 32, 72, 83, 32, 53076, 46300, 32,
      44288, 47144, 32, 51221, 48372, 44032, 32, 54596, 50836, 54620, 32, 44221, 50864, 46,
      10, 51, 46, 32, 34, 104, 115, 95, 109, 97, 110, 117, 97, 108, 34, 58, 32, 72, 83, 32,
      54644, 49444, 49436, 44, 32, 44508, 51221, 44, 32, 54032, 47168, 32, 46321, 32,
      49900, 52789, 32, 48516, 49437, 51060, 32, 54596, 50836, 54620, 32, 44221, 50864, 46,
      10, 10, 50500, 47000, 32, 49324, 50857, 51088, 32, 51656, 47928, 51012, 32, 51069,
      44256, 44, 32, 48152, 46300, 49884, 32, 50948, 32, 49464, 32, 44032, 51648, 32,
      51473, 32, 54616, 45208, 51032, 32, 50976, 54805, 47564, 32, 54620, 44544, 51060, 32,
      50500, 45772, 32, 49548, 47928, 51088, 32, 50689, 47928, 51004, 47196, 32, 45813,
      48320, 54616, 49464, 50836, 46, 10, 51656, 47928, 58, 32]"

definition labels :: "pystr list" where
  "labels = [asc ''web_search'', asc ''hs_classification'', asc ''hs_manual'']"

text \<open>\<open>if api_key: genai.configure(api_key=api_key)\<close>.\<close>

definition configure_key :: "pystr option \<Rightarrow> 'r proc \<Rightarrow> 'r proc" where
  "configure_key key s =
     (case key of
        None \<Rightarrow> s
      | Some k \<Rightarrow> if k \<noteq> [] then s\<lparr>api_key := Some k\<rparr> else s)"

text \<open>
  The \<open>try\<close> block yields \<open>Some answer\<close> when it returns and \<open>None\<close> when control
  falls through to the final \<open>return "hs_classification"\<close>. The handler prints a line
  that starts with \<open><U+C9C8><U+BB38> <U+BD84><U+B958> <U+C624><U+B958>: \<close>.
\<close>

definition classify_question ::
  "'r py \<Rightarrow> (pystr \<Rightarrow> exn + pystr) \<Rightarrow> pystr \<Rightarrow> pystr option \<Rightarrow> (pystr, 'r proc) stmt" where
  "classify_question env llm user_input key s =
     (let system_prompt = prompt_head @ user_input @ [10, 45813, 48320, 58]
      in case try_except
                (\<lambda>s. case llm system_prompt of
                        Inl e \<Rightarrow> (Inl e, s)
                      | Inr response \<Rightarrow>
                          (let answer = py_lower env (str_strip (py_isspace env) response)
                           in if answer \<in> set labels then (Inr (Some answer), s)
                              else (Inr None, s)))
                (\<lambda>e s. (Inr None,
                         print_line ([51656, 47928, 32, 48516, 47448, 32, 50724, 47448, 58, 32]
                                     @ py_exn_text env e) s))
                (configure_key key s) of
           (Inl e, s') \<Rightarrow> (Inl e, s')
         | (Inr (Some answer), s') \<Rightarrow> (Inr answer, s')
         | (Inr None, s') \<Rightarrow> (Inr (asc ''hs_classification''), s'))"


section \<open>Notions used to state the properties\<close>

subsection \<open>Ranking of search results\<close>

text \<open>The elements of a list in the order of their first occurrence.\<close>

fun first_seen :: "'a list \<Rightarrow> 'a list" where
  "first_seen [] = []"
| "first_seen (x # xs) = x # filter (\<lambda>y. y \<noteq> x) (first_seen xs)"






subsection \<open>An interpreter restricted to ASCII\<close>

text \<open>
  For evaluation on concrete inputs the parameters are instantiated with the behaviour of
  CPython on ASCII text: the character classes on code points below 128, \<open>str.lower\<close>
  on ASCII letters, \<open>repr\<close> of a string of printable ASCII characters, newlines,
  carriage returns and tabs, \<open>str\<close> of a \<open>dict\<close> and of a \<open>list\<close> of such strings,
  and \<open>json.dumps\<close> of such a \<open>dict\<close>. A set is listed in the order of first
  insertion (one of the orders CPython can produce), \<open>eval\<close> inverts \<open>str\<close> on a
  given list of records and raises on any other text, and the text of an exception is the
  name of its class.
\<close>

definition ascii_isword :: "nat \<Rightarrow> bool" where
  "ascii_isword c =
     (48 \<le> c \<and> c \<le> 57 \<or> 65 \<le> c \<and> c \<le> 90 \<or> c = 95 \<or> 97 \<le> c \<and> c \<le> 122)"

definition ascii_isspace :: "nat \<Rightarrow> bool" where
  "ascii_isspace c = (9 \<le> c \<and> c \<le> 13 \<or> 28 \<le> c \<and> c \<le> 32)"

definition ascii_isdigit :: "nat \<Rightarrow> bool" where
  "ascii_isdigit c = (48 \<le> c \<and> c \<le> 57)"

definition ascii_lower :: "pystr \<Rightarrow> pystr" where
  "ascii_lower t = map (\<lambda>c. if 65 \<le> c \<and> c \<le> 90 then c + 32 else c) t"

definition repr_str :: "pystr \<Rightarrow> pystr" where
  "repr_str t =
     (let q = (if 39 \<in> set t \<and> 34 \<notin> set t then 34 else 39)
      in [q] @ concat (map (\<lambda>c. if c = 92 then [92, 92] else if c = q then [92, q]
                                else if c = 10 then [92, 110] else if c = 13 then [92, 114]
                                else if c = 9 then [92, 116] else [c]) t) @ [q])"

definition repr_list :: "pystr list \<Rightarrow> pystr" where
  "repr_list ts = [91] @ str_join [44, 32] (map repr_str ts) @ [93]"

definition dict_str :: "jobj \<Rightarrow> pystr" where
  "dict_str d =
     [123] @ str_join [44, 32] (map (\<lambda>(k, v). repr_str k @ [58, 32] @ repr_str v) d) @ [125]"

definition json_str :: "pystr \<Rightarrow> pystr" where
  "json_str t =
     [34] @ concat (map (\<lambda>c. if c = 34 then [92, 34] else if c = 92 then [92, 92]
                            else if c = 10 then [92, 110] else if c = 13 then [92, 114]
                            else if c = 9 then [92, 116] else [c]) t) @ [34]"

definition json_dumps :: "jobj \<Rightarrow> pystr" where
  "json_dumps d =
     [123] @ str_join [44, 32] (map (\<lambda>(k, v). json_str k @ [58, 32] @ json_str v) d) @ [125]"

definition eval_known :: "jobj list \<Rightarrow> pystr \<Rightarrow> exn + jobj" where
  "eval_known known t =
     (case find (\<lambda>r. dict_str r = t) known of Some r \<Rightarrow> Inr r | None \<Rightarrow> Inl SyntaxError)"

fun exn_name :: "exn \<Rightarrow> pystr" where
  "exn_name FileNotFoundError = asc ''FileNotFoundError''"
| "exn_name PermissionError = asc ''PermissionError''"
| "exn_name UnicodeDecodeError = asc ''UnicodeDecodeError''"
| "exn_name JSONDecodeError = asc ''JSONDecodeError''"
| "exn_name KeyError = asc ''KeyError''"
| "exn_name NameError = asc ''NameError''"
| "exn_name SyntaxError = asc ''SyntaxError''"
| "exn_name RuntimeError = asc ''RuntimeError''"

definition ascii_py :: "jobj list \<Rightarrow> jobj py" where
  "ascii_py known =
     \<lparr>py_isword = ascii_isword, py_isspace = ascii_isspace, py_isdigit = ascii_isdigit,
      py_lower = ascii_lower, py_set_list = first_seen, py_str = dict_str,
      py_eval = eval_known known, py_dumps = json_dumps, py_format_list = repr_list,
      py_exn_text = exn_name\<rparr>"

text \<open>A process that has not run anything yet.\<close>

definition fresh :: "'r proc" where
  "fresh = \<lparr>data = [], search_index = [], general_explanation = [], api_key = None,
            opened = [], printed = []\<rparr>"


subsection \<open>A small corpus\<close>

text \<open>Three records, two in source \<open>A\<close> and one in source \<open>B\<close>, and the manager
  state with the index built over them.\<close>

definition demo_records :: "jobj list" where
  "demo_records =
     [[(asc ''item'', asc ''phone''), (asc ''code'', asc ''8517'')],
      [(asc ''item'', asc ''smart phone''), (asc ''code'', asc ''8517'')],
      [(asc ''item'', asc ''radio''), (asc ''code'', asc ''8527'')]]"

definition demo_py :: "jobj py" where
  "demo_py = ascii_py demo_records"

definition demo_state :: "jobj proc" where
  "demo_state =
     build_search_index demo_py
       (fresh\<lparr>data := [(asc ''A'', take 2 demo_records), (asc ''B'', drop 2 demo_records)]\<rparr>)"

subsection \<open>A record that holds NaN\<close>









subsection \<open>A corpus of six records\<close>

text \<open>Six records of one source that all contain the word \<open>phone\<close>, and the manager
  state with the index built over them.\<close>

definition phone_record :: "nat \<Rightarrow> jobj" where
  "phone_record n = [(asc ''item'', asc ''phone''), (asc ''no'', asc ''no'' @ str_nat n)]"

definition phone_records :: "jobj list" where
  "phone_records = map phone_record [1, 2, 3, 4, 5, 6]"

definition phones_py :: "jobj py" where
  "phones_py = ascii_py phone_records"


subsection \<open>The result of one level of the lookup\<close>

text \<open>
  The \<open>code\<close> field of an entry as \<open>lookup_hscode\<close> reads it, and what the result
  of the level with prefix length \<open>l\<close> has to be: the first entry of the document whose
  code is the prefix, when the code is long enough and such an entry exists, and the
  level's placeholder otherwise.
\<close>

definition code_of :: "jobj \<Rightarrow> pystr" where
  "code_of entry = dict_get entry (asc ''code'') []"

definition level_result :: "nat \<Rightarrow> jobj \<Rightarrow> jobj list \<Rightarrow> pystr \<Rightarrow> jobj \<Rightarrow> bool" where
  "level_result l placeholder entries hs_code res =
     (if l \<le> length hs_code \<and> (\<exists>e\<in>set entries. code_of e = take l hs_code)
      then (\<exists>i<length entries. res = entries ! i \<and> code_of (entries ! i) = take l hs_code
              \<and> (\<forall>j<i. code_of (entries ! j) \<noteq> take l hs_code))
      else res = placeholder)"

subsection \<open>Reference documents and files\<close>

text \<open>An explanation document with a repeated code, a general-rules document with an
  empty entry and an entry without \<open>text\<close>, and a disk that holds them, the first case
  file and the first of the two other corpus files; every other file is missing.\<close>

definition demo_entries :: "jobj list" where
  "demo_entries =
     [[(asc ''code'', asc ''85''), (asc ''text'', asc ''Section 85'')],
      [(asc ''code'', asc ''8517''), (asc ''text'', asc ''Heading 8517'')],
      [(asc ''code'', asc ''85''), (asc ''text'', asc ''Section 85 again'')]]"

definition demo_rules :: "jobj list" where
  "demo_rules =
     [[(asc ''head1'', asc ''A''), (asc ''text'', asc ''B'')],
      [(asc ''head1'', []), (asc ''text'', [])],
      [(asc ''head1'', asc ''C'')]]"

definition demo_disk :: "jobj disk" where
  "demo_disk =
     \<lparr>corpus_file =
        (\<lambda>p. if p = asc ''knowledge/'' @ cases_part @ asc ''1.json'' then Inr (take 2 demo_records)
             else if p = asc ''knowledge/HS'' @ [50948, 50896, 54924] @ asc ''.json''
             then Inr (drop 2 demo_records)
             else Inl FileNotFoundError),
      ref_file =
        (\<lambda>p. if p = explanations_file then Inr demo_entries
             else if p = general_rules_file then Inr demo_rules
             else Inl FileNotFoundError)\<rparr>"

subsection \<open>The configured corpus files\<close>

text \<open>
  The twelve corpus files in the order in which \<open>load_all_data\<close> reads them, each with
  the key it gets in \<open>self.data\<close> and the warning printed when it is missing; one
  iteration of either loop, for such a triple; a file that parses or is missing; and what
  a tolerant load leaves in \<open>self.data\<close> and on the output.
\<close>

definition case_source :: "nat \<Rightarrow> pystr \<times> pystr \<times> pystr" where
  "case_source i =
     (asc ''knowledge/'' @ cases_part @ str_nat i @ asc ''.json'',
      cases_part @ str_nat i,
      asc ''Warning: '' @ cases_part @ str_nat i @ asc ''.json not found'')"

definition other_source :: "pystr \<Rightarrow> pystr \<times> pystr \<times> pystr" where
  "other_source file =
     (file, str_replace (asc ''.json'') [] file, asc ''Warning: '' @ file @ asc '' not found'')"

definition corpus_sources :: "(pystr \<times> pystr \<times> pystr) list" where
  "corpus_sources = map case_source [1..<11] @ map other_source other_files"

definition source_key :: "pystr \<times> pystr \<times> pystr \<Rightarrow> pystr" where
  "source_key src = fst (snd src)"

definition load_source :: "'r disk \<Rightarrow> pystr \<times> pystr \<times> pystr \<Rightarrow> (unit, 'r proc) stmt" where
  "load_source fs src =
     (case src of (path, key, warning) \<Rightarrow>
        try_except_only FileNotFoundError
          (\<lambda>s. case load_corpus_json fs path s of
                  (Inl e, s') \<Rightarrow> (Inl e, s')
                | (Inr items, s') \<Rightarrow> (Inr (), s'\<lparr>data := dict_set key items (data s')\<rparr>))
          (\<lambda>e s. (Inr (), print_line warning s)))"

definition tolerable :: "'r disk \<Rightarrow> pystr \<times> pystr \<times> pystr \<Rightarrow> bool" where
  "tolerable fs src =
     (case corpus_file fs (fst src) of Inr _ \<Rightarrow> True | Inl e \<Rightarrow> e = FileNotFoundError)"

definition loaded :: "'r disk \<Rightarrow> (pystr \<times> pystr \<times> pystr) list \<Rightarrow> (pystr \<times> 'r list) list" where
  "loaded fs srcs =
     concat (map (\<lambda>(path, key, warning).
                    case corpus_file fs path of Inr items \<Rightarrow> [(key, items)] | Inl _ \<Rightarrow> [])
                 srcs)"

definition warnings :: "'r disk \<Rightarrow> (pystr \<times> pystr \<times> pystr) list \<Rightarrow> pystr list" where
  "warnings fs srcs =
     concat (map (\<lambda>(path, key, warning).
                    case corpus_file fs path of Inr _ \<Rightarrow> [] | Inl _ \<Rightarrow> [warning])
                 srcs)"

text \<open>The disk of above, except that the third case file and the general-rules file do
  not parse.\<close>

definition broken_disk :: "jobj disk" where
  "broken_disk =
     \<lparr>corpus_file =
        (\<lambda>p. if p = asc ''knowledge/'' @ cases_part @ asc ''3.json'' then Inl JSONDecodeError
             else corpus_file demo_disk p),
      ref_file =
        (\<lambda>p. if p = general_rules_file then Inl JSONDecodeError else ref_file demo_disk p)\<rparr>"

subsection \<open>The normalized response\<close>

text \<open>\<open>response.text.strip().lower()\<close>, the text that \<open>classify_question\<close> compares
  with the labels.\<close>

definition normalized :: "'r py \<Rightarrow> pystr \<Rightarrow> pystr" where
  "normalized env response = py_lower env (str_strip (py_isspace env) response)"

subsection \<open>Blocks of explanations\<close>

text \<open>
  The string that \<open>extract_and_store_text\<close> makes of one general-rules entry, and the
  entries it skips; the start of the block that \<open>get_hs_explanations\<close> appends for a
  code: the header line with the code, the label of the general rules and the list of
  general rules as the f-string formats it.
\<close>

definition general_entry :: "jobj \<Rightarrow> pystr" where
  "general_entry entry =
     dict_get entry (asc ''head1'') [] @ [10] @ dict_get entry (asc ''text'') []"

definition skipped :: "jobj \<Rightarrow> bool" where
  "skipped entry =
     (dict_get entry (asc ''head1'') [] = [] \<and> dict_get entry (asc ''text'') [] = [])"

definition block_head :: "'r py \<Rightarrow> pystr list \<Rightarrow> pystr \<Rightarrow> pystr" where
  "block_head env general hs_code =
     [10, 10, 72, 83, 32, 53076, 46300, 32] @ hs_code
       @ [50640, 32, 45824, 54620, 32, 54644, 49444, 58, 10]
       @ [54644, 49444, 49436, 32, 53685, 52825, 58, 10]
       @ py_format_list env general @ [10, 10]"

text \<open>
  A whole block for a code: its start, then the three labelled texts, which are the
  \<open>text\<close> fields of the three entries that \<open>lookup_hscode\<close> returns for the code, the
  first two followed by two newlines and the last by one.
\<close>

definition explained_block :: "'r py \<Rightarrow> 'r disk \<Rightarrow> 'r proc \<Rightarrow> pystr \<Rightarrow> pystr \<Rightarrow> bool" where
  "explained_block env fs s hs_code block =
     (\<exists>e2 e4 e6 t1 t2 t3.
        fst (lookup_hscode env fs hs_code explanations_file s) = Inr (e2, e4, e6)
      \<and> dict_getitem e2 (asc ''text'') = Inr t1
      \<and> dict_getitem e4 (asc ''text'') = Inr t2
      \<and> dict_getitem e6 (asc ''text'') = Inr t3
      \<and> block = block_head env (general_explanation s) hs_code
                  @ [48512, 32, 54644, 49444, 58, 10] @ t1 @ [10, 10]
                  @ [47448, 32, 54644, 49444, 58, 10] @ t2 @ [10, 10]
                  @ [54840, 32, 54644, 49444, 58, 10] @ t3 @ [10])"

text \<open>The preamble as the specification words it: the entries that are not skipped,
  separated by newlines.\<close>

definition spec_preamble :: "jobj list \<Rightarrow> pystr" where
  "spec_preamble entries =
     str_join [10] (map general_entry (filter (\<lambda>entry. \<not> skipped entry) entries))"

text \<open>The process after the module has been imported from the disk of above.\<close>

definition demo_imported :: "jobj proc" where
  "demo_imported = snd (module_init demo_py demo_disk fresh)"

section \<open>Properties of search\<close>

subsection \<open>The score table\<close>

lemma set_first_seen: "set (first_seen xs) = set xs"
  by (induction xs) auto

lemma distinct_first_seen: "distinct (first_seen xs)"
  by (induction xs) auto























lemmas ascii_defs = ascii_py_def ascii_isword_def ascii_isspace_def ascii_isdigit_def
  ascii_lower_def repr_str_def repr_list_def dict_str_def json_str_def json_dumps_def
  eval_known_def asc_def


subsection \<open>Ranking, ties and truncation\<close>




section \<open>The index and recall\<close>

subsection \<open>What build\_search\_index puts into a bucket\<close>







subsection \<open>Evaluation on the corpus of six records\<close>

lemma phone_strs:
  "map dict_str phone_records = map (\<lambda>n. asc ''{'' @ [39] @ asc ''item'' @ [39] @ asc '': '' @ [39] @ asc ''phone'' @ [39] @ asc '', '' @ [39] @ asc ''no'' @ [39] @ asc '': '' @ [39] @ asc ''no'' @ [48 + n] @ [39] @ asc ''}'') [1, 2, 3, 4, 5, 6]"
  by (simp add: phone_records_def phone_record_def ascii_defs str_nat.simps)

lemma phone_kw:
  "extract_keywords phones_py (dict_str (phone_record 3)) = [asc ''item'', asc ''phone'', asc ''no'', asc ''no3'']"
  by (simp add: phones_py_def phone_record_def ascii_defs str_nat.simps extract_keywords_def re_sub_nonword_def)






subsection \<open>Recall of an indexed record\<close>





section \<open>The index after it is built\<close>

text \<open>The subscript access of a \<open>defaultdict\<close>, which \<open>build_search_index\<close> uses,
  inserts a key that is absent; \<open>search\<close> reads with \<open>get\<close>.\<close>

lemma dict_append_inserts:
  "k \<notin> set (map fst d) \<Longrightarrow> map fst (dict_append k v d) = map fst d @ [k]"
  by (induction d) auto

lemma demo_index_keys:
  "map fst (search_index demo_state)
     = [asc ''item'', asc ''phone'', asc ''code'', asc ''8517'', asc ''smart'', asc ''radio'',
        asc ''8527'']"
  by (simp add: demo_state_def build_search_index_def index_item_def fresh_def
      demo_py_def demo_records_def ascii_defs extract_keywords_def re_sub_nonword_def)

lemma search_state: "snd (search env query max_results s) = s"
  by (simp add: search_def Let_def)

lemma context_state: "snd (get_relevant_context env query s) = s"
proof (cases "search env query 5 s")
  case (Pair r s')
  with search_state[of env query 5 s] have "s' = s" by simp
  with Pair show ?thesis
    by (cases r) (simp_all add: get_relevant_context_def Let_def)
qed

text \<open>
  C8. The index is not changed after it is built: \<open>search\<close> and
  \<open>get_relevant_context\<close> return the state they were given, for every query; the
  bucket of a keyword that is absent from the index is empty, and a search for it leaves
  the keys of the index as they were.
\<close>

theorem search_index_unchanged:
  "snd (search env query max_results s) = s
   \<and> snd (get_relevant_context env query s) = s
   \<and> (keyword \<notin> set (map fst (search_index s))
        \<longrightarrow> dict_get (search_index s) keyword [] = []
            \<and> map fst (search_index (snd (search env keyword max_results s)))
                = map fst (search_index s))"
proof (intro conjI impI)
  show "snd (search env query max_results s) = s"
    by (rule search_state)
  show "snd (get_relevant_context env query s) = s"
    by (rule context_state)
  assume "keyword \<notin> set (map fst (search_index s))"
  then have "map_of (search_index s) keyword = None"
    by (simp add: map_of_eq_None_iff)
  then show "dict_get (search_index s) keyword [] = []"
    by (simp add: dict_get_def)
  show "map fst (search_index (snd (search env keyword max_results s))) = map fst (search_index s)"
    by (simp add: search_state)
qed

theorem search_index_unchanged_witness:
  "asc ''zzz'' \<notin> set (map fst (search_index demo_state))
   \<and> dict_get (search_index demo_state) (asc ''zzz'') [] = []
   \<and> map fst (search_index (snd (search demo_py (asc ''zzz'') 5 demo_state)))
        = map fst (search_index demo_state)"
proof -
  have a: "asc ''zzz'' \<notin> set (map fst (search_index demo_state))"
    by (simp add: demo_index_keys asc_def)
  from a search_index_unchanged[of demo_py "asc ''zzz''" 5 demo_state "asc ''zzz''"]
  show ?thesis by blast
qed

section \<open>Explanation lookup\<close>

lemma next_or_level:
  "level_result l placeholder entries hs_code
     (if l \<le> length hs_code
      then next_or (\<lambda>entry. dict_get entry (asc ''code'') [] = take l hs_code) entries placeholder
      else placeholder)"
proof (cases "find (\<lambda>entry. dict_get entry (asc ''code'') [] = take l hs_code) entries")
  case None
  then have "\<not> (\<exists>e\<in>set entries. code_of e = take l hs_code)"
    by (simp add: find_None_iff code_of_def)
  with None show ?thesis
    by (simp add: level_result_def next_or_def)
next
  case (Some x)
  then obtain i where i: "i < length entries" "code_of (entries ! i) = take l hs_code"
      "x = entries ! i" "\<forall>j<i. code_of (entries ! j) \<noteq> take l hs_code"
    by (auto simp: find_Some_iff code_of_def)
  then have ex: "\<exists>e\<in>set entries. code_of e = take l hs_code"
    using nth_mem by blast
  show ?thesis
  proof (cases "l \<le> length hs_code")
    case True
    with Some i ex show ?thesis
      by (auto simp: level_result_def next_or_def)
  next
    case False
    then show ?thesis by (simp add: level_result_def)
  qed
qed

lemma lookup_demo:
  "fst (lookup_hscode demo_py demo_disk (asc ''851762'') explanations_file fresh)
     = Inr (demo_entries ! 0, demo_entries ! 1, subheading_placeholder)"
  by (simp add: lookup_hscode_def try_except_def load_ref_json_def next_or_def dict_get_def
      demo_disk_def demo_entries_def asc_def)

text \<open>
  C2. For every code and every reference document, each of the three levels (prefix
  lengths 2, 4 and 6) is resolved on its own: if the code has at least that length and
  some entry's code equals the prefix, the result of the level is the first such entry
  in document order, and otherwise it is the placeholder of that level. In particular,
  for a code of length 6 with no entry whose code is its first two characters, the
  section result is the placeholder, whatever the other two levels find.
\<close>

theorem lookup_hscode_levels:
  assumes "ref_file fs json_file = Inr entries"
  shows "\<exists>e2 e4 e6.
           fst (lookup_hscode env fs hs_code json_file s) = Inr (e2, e4, e6)
         \<and> level_result 2 section_placeholder entries hs_code e2
         \<and> level_result 4 heading_placeholder entries hs_code e4
         \<and> level_result 6 subheading_placeholder entries hs_code e6
         \<and> (length hs_code = 6 \<and> (\<forall>e\<in>set entries. code_of e \<noteq> take 2 hs_code)
              \<longrightarrow> e2 = section_placeholder)"
proof -
  let ?f = "\<lambda>l ph. if l \<le> length hs_code
      then next_or (\<lambda>entry. dict_get entry (asc ''code'') [] = take l hs_code) entries ph
      else ph"
  have r: "fst (lookup_hscode env fs hs_code json_file s)
             = Inr (?f 2 section_placeholder, ?f 4 heading_placeholder, ?f 6 subheading_placeholder)"
    using assms by (simp add: lookup_hscode_def try_except_def load_ref_json_def Let_def)
  have p: "length hs_code = 6 \<and> (\<forall>e\<in>set entries. code_of e \<noteq> take 2 hs_code)
              \<longrightarrow> ?f 2 section_placeholder = section_placeholder"
    using next_or_level[of 2 section_placeholder entries hs_code]
    by (auto simp: level_result_def)
  from r p next_or_level[of 2 section_placeholder entries hs_code]
    next_or_level[of 4 heading_placeholder entries hs_code]
    next_or_level[of 6 subheading_placeholder entries hs_code]
  show ?thesis by blast
qed

theorem lookup_hscode_levels_witness:
  "\<exists>e2 e4 e6.
     fst (lookup_hscode demo_py demo_disk (asc ''851762'') explanations_file fresh)
       = Inr (e2, e4, e6)
   \<and> level_result 2 section_placeholder demo_entries (asc ''851762'') e2
   \<and> level_result 4 heading_placeholder demo_entries (asc ''851762'') e4
   \<and> level_result 6 subheading_placeholder demo_entries (asc ''851762'') e6"
proof -
  have "ref_file demo_disk explanations_file = Inr demo_entries"
    by (simp add: demo_disk_def)
  from lookup_hscode_levels[OF this, of demo_py "asc ''851762''" fresh]
  show ?thesis by blast
qed

section \<open>Loading\<close>

subsection \<open>The two loops of load\_all\_data as one\<close>

lemma range_1_11: "[1..<11] = [1, 2, 3, 4, 5, 6, 7, 8, 9, 10 :: nat]"
  by (simp add: upt_rec)

lemma for_loop_append:
  "for_loop body (xs @ ys) s =
     (case for_loop body xs s of (Inl e, s') \<Rightarrow> (Inl e, s') | (Inr _, s') \<Rightarrow> for_loop body ys s')"
  by (induction xs arbitrary: s) (auto split: prod.splits sum.splits)

lemma for_loop_map:
  "for_loop body (map f xs) s = for_loop (\<lambda>x. body (f x)) xs s"
  by (induction xs arbitrary: s) (auto split: prod.splits sum.splits)

lemma load_all_data_sources:
  "load_all_data fs s = for_loop (load_source fs) corpus_sources s"
proof -
  have a: "(\<lambda>i. load_source fs (case_source i)) = load_case_part fs"
    by (rule ext) (simp add: load_source_def load_case_part_def case_source_def)
  have b: "(\<lambda>file. load_source fs (other_source file)) = load_other_file fs"
    by (rule ext) (simp add: load_source_def load_other_file_def other_source_def)
  show ?thesis
    by (simp only: load_all_data_def corpus_sources_def for_loop_append for_loop_map a b)
qed

lemma dict_set_new:
  "k \<notin> set (map fst d) \<Longrightarrow> dict_set k v d = d @ [(k, v)]"
  by (induction d) auto

lemma load_source_step:
  "load_source fs (path, key, warning) s =
     (case corpus_file fs path of
        Inr items \<Rightarrow>
          (Inr (), s\<lparr>opened := opened s @ [path], data := dict_set key items (data s)\<rparr>)
      | Inl e \<Rightarrow>
          if e = FileNotFoundError
          then (Inr (), s\<lparr>opened := opened s @ [path], printed := printed s @ [warning]\<rparr>)
          else (Inl e, s\<lparr>opened := opened s @ [path]\<rparr>))"
  by (simp add: load_source_def try_except_only_def load_corpus_json_def print_line_def
      split: sum.splits)

lemma source_key_triple: "source_key (path, key, warning) = key"
  by (simp add: source_key_def)

lemma loaded_Cons:
  "loaded fs ((path, key, warning) # srcs) =
     (case corpus_file fs path of Inr items \<Rightarrow> [(key, items)] | Inl _ \<Rightarrow> []) @ loaded fs srcs"
  by (simp add: loaded_def)

lemma warnings_Cons:
  "warnings fs ((path, key, warning) # srcs) =
     (case corpus_file fs path of Inr _ \<Rightarrow> [] | Inl _ \<Rightarrow> [warning]) @ warnings fs srcs"
  by (simp add: warnings_def)

lemma keys_loaded: "set (map fst (loaded fs srcs)) \<subseteq> set (map source_key srcs)"
proof (induction srcs)
  case Nil
  then show ?case by (simp add: loaded_def)
next
  case (Cons src srcs)
  obtain path key warning where src: "src = (path, key, warning)" by (cases src)
  from Cons.IH show ?case
    by (cases "corpus_file fs path") (auto simp: src loaded_Cons source_key_triple)
qed

lemma load_sources_tolerant:
  assumes "\<forall>src\<in>set srcs. tolerable fs src"
    and "distinct (map source_key srcs)"
    and "set (map fst (data s)) \<inter> set (map source_key srcs) = {}"
  shows "for_loop (load_source fs) srcs s =
           (Inr (), s\<lparr>data := data s @ loaded fs srcs,
                       opened := opened s @ map fst srcs,
                       printed := printed s @ warnings fs srcs\<rparr>)"
  using assms
proof (induction srcs arbitrary: s)
  case Nil
  then show ?case by (simp add: loaded_def warnings_def)
next
  case (Cons src srcs)
  obtain path key warning where src: "src = (path, key, warning)" by (cases src)
  from Cons.prems src have knew: "key \<notin> set (map fst (data s))"
    and krest: "key \<notin> set (map source_key srcs)"
    and tol: "tolerable fs (path, key, warning)"
    and rest: "\<forall>src\<in>set srcs. tolerable fs src" "distinct (map source_key srcs)"
    and disj: "set (map fst (data s)) \<inter> set (map source_key srcs) = {}"
    by (auto simp: source_key_triple)
  show ?case
  proof (cases "corpus_file fs path")
    case (Inl e)
    with tol have e: "e = FileNotFoundError" by (simp add: tolerable_def)
    let ?s1 = "s\<lparr>opened := opened s @ [path], printed := printed s @ [warning]\<rparr>"
    have step: "load_source fs (path, key, warning) s = (Inr (), ?s1)"
      using Inl e by (simp add: load_source_step)
    have "for_loop (load_source fs) srcs ?s1 =
           (Inr (), ?s1\<lparr>data := data ?s1 @ loaded fs srcs,
                       opened := opened ?s1 @ map fst srcs,
                       printed := printed ?s1 @ warnings fs srcs\<rparr>)"
      using rest disj by (intro Cons.IH) simp_all
    with step Inl show ?thesis
      by (simp add: src loaded_Cons warnings_Cons)
  next
    case (Inr items)
    let ?s1 = "s\<lparr>opened := opened s @ [path], data := data s @ [(key, items)]\<rparr>"
    have step: "load_source fs (path, key, warning) s = (Inr (), ?s1)"
      using Inr knew by (simp add: load_source_step dict_set_new)
    have "for_loop (load_source fs) srcs ?s1 =
           (Inr (), ?s1\<lparr>data := data ?s1 @ loaded fs srcs,
                       opened := opened ?s1 @ map fst srcs,
                       printed := printed ?s1 @ warnings fs srcs\<rparr>)"
      using rest disj krest by (intro Cons.IH) simp_all
    with step Inr show ?thesis
      by (simp add: src loaded_Cons warnings_Cons)
  qed
qed

lemma load_sources_failure:
  assumes "\<forall>src\<in>set pre. tolerable fs src"
    and "corpus_file fs path = Inl e" and "e \<noteq> FileNotFoundError"
  shows "fst (for_loop (load_source fs) (pre @ (path, key, warning) # post) s) = Inl e"
  using assms(1)
proof (induction pre arbitrary: s)
  case Nil
  with assms(2,3) show ?case by (simp add: load_source_step)
next
  case (Cons src pre)
  obtain p k w where src: "src = (p, k, w)" by (cases src)
  from Cons.prems src have tol: "tolerable fs (p, k, w)" and rest: "\<forall>src\<in>set pre. tolerable fs src"
    by auto
  from tol obtain s1 where "load_source fs (p, k, w) s = (Inr (), s1)"
    by (auto simp: load_source_step tolerable_def split: sum.splits)
  with Cons.IH[OF rest, of s1] show ?case by (simp add: src)
qed

lemma in_sources_key: "src \<in> set srcs \<Longrightarrow> source_key src \<in> set (map source_key srcs)"
  by simp

lemma loaded_present:
  assumes "distinct (map source_key srcs)" and "(path, key, warning) \<in> set srcs"
    and "corpus_file fs path = Inr items"
  shows "map_of (loaded fs srcs) key = Some items"
  using assms
proof (induction srcs)
  case Nil
  then show ?case by simp
next
  case (Cons src srcs)
  obtain p k w where src: "src = (p, k, w)" by (cases src)
  show ?case
  proof (cases "(path, key, warning) = src")
    case True
    with Cons.prems(3) src show ?thesis by (simp add: loaded_Cons)
  next
    case False
    with Cons.prems have m: "(path, key, warning) \<in> set srcs" by simp
    from in_sources_key[OF m] have "key \<in> set (map source_key srcs)"
      by (simp add: source_key_triple)
    with Cons.prems(1) src have "k \<noteq> key" by (auto simp: source_key_triple)
    moreover from Cons.prems(1) have "distinct (map source_key srcs)" by simp
    ultimately show ?thesis
      using Cons.IH[OF _ m Cons.prems(3)]
      by (cases "corpus_file fs p") (simp_all add: src loaded_Cons)
  qed
qed

lemma loaded_missing:
  assumes "distinct (map source_key srcs)" and "(path, key, warning) \<in> set srcs"
    and "corpus_file fs path = Inl e"
  shows "key \<notin> set (map fst (loaded fs srcs)) \<and> warning \<in> set (warnings fs srcs)"
  using assms
proof (induction srcs)
  case Nil
  then show ?case by simp
next
  case (Cons src srcs)
  obtain p k w where src: "src = (p, k, w)" by (cases src)
  from Cons.prems(1) src have kn: "k \<notin> set (map source_key srcs)"
    and d: "distinct (map source_key srcs)" by (auto simp: source_key_triple)
  show ?case
  proof (cases "(path, key, warning) = src")
    case True
    with src kn keys_loaded[of fs srcs] have "key \<notin> set (map fst (loaded fs srcs))" by auto
    with True src Cons.prems(3) show ?thesis by (simp add: loaded_Cons warnings_Cons)
  next
    case False
    with Cons.prems have m: "(path, key, warning) \<in> set srcs" by simp
    from in_sources_key[OF m] have "key \<in> set (map source_key srcs)"
      by (simp add: source_key_triple)
    with kn have "k \<noteq> key" by auto
    with Cons.IH[OF d m Cons.prems(3)] show ?thesis
      by (cases "corpus_file fs p") (simp_all add: src loaded_Cons warnings_Cons)
  qed
qed

lemma source_keys:
  "map source_key corpus_sources =
     map (\<lambda>c. cases_part @ c)
       [asc ''1'', asc ''2'', asc ''3'', asc ''4'', asc ''5'', asc ''6'', asc ''7'', asc ''8'',
        asc ''9'', asc ''10'']
     @ [asc ''knowledge/HS'' @ [50948, 50896, 54924], asc ''knowledge/HS'' @ [54801, 51032, 54924]]"
  unfolding corpus_sources_def range_1_11
  by (simp add: source_key_def case_source_def other_source_def str_nat.simps other_files_def
      str_replace_def asc_def)

lemma distinct_source_keys: "distinct (map source_key corpus_sources)"
  by (simp add: source_keys asc_def cases_part_def)

lemma corpus_sources_split:
  "corpus_sources =
     map case_source [1, 2] @ case_source 3
       # (map case_source [4, 5, 6, 7, 8, 9, 10] @ map other_source other_files)"
  unfolding corpus_sources_def range_1_11 by simp

lemma demo_disk_tolerable: "\<forall>src\<in>set corpus_sources. tolerable demo_disk src"
  unfolding corpus_sources_split
  by (simp add: tolerable_def demo_disk_def case_source_def other_source_def other_files_def)

lemma demo_disk_loaded:
  "loaded demo_disk corpus_sources =
     [(cases_part @ asc ''1'', take 2 demo_records),
      (asc ''knowledge/HS'' @ [50948, 50896, 54924], drop 2 demo_records)]"
  unfolding corpus_sources_split
  by (simp add: loaded_def demo_disk_def case_source_def other_source_def other_files_def
      str_nat.simps str_replace_def asc_def cases_part_def)

subsection \<open>Missing and malformed corpus files\<close>

text \<open>
  C5. Loading the corpus does not raise when configured files are missing: if every
  configured file either parses or is missing, \<open>load_all_data\<close> completes, each missing
  file has no key in the resulting corpus and its warning is printed, and every other
  source is there with its records. Any other failure is not swallowed: the first file
  whose load raises something else than \<open>FileNotFoundError\<close> makes \<open>load_all_data\<close>
  raise that exception, which differs from the result of the missing-file case.
\<close>

theorem load_all_data_missing_files:
  "((\<forall>src\<in>set corpus_sources. tolerable fs src) \<and> data s = []
      \<longrightarrow> load_all_data fs s =
            (Inr (), s\<lparr>data := loaded fs corpus_sources,
                        opened := opened s @ map fst corpus_sources,
                        printed := printed s @ warnings fs corpus_sources\<rparr>)
          \<and> (\<forall>(path, key, warning)\<in>set corpus_sources.
                case corpus_file fs path of
                  Inr items \<Rightarrow> map_of (loaded fs corpus_sources) key = Some items
                | Inl _ \<Rightarrow> key \<notin> set (map fst (loaded fs corpus_sources))
                           \<and> warning \<in> set (warnings fs corpus_sources)))
   \<and> (corpus_sources = pre @ (path, key, warning) # post
        \<and> (\<forall>src\<in>set pre. tolerable fs src)
        \<and> corpus_file fs path = Inl e \<and> e \<noteq> FileNotFoundError
      \<longrightarrow> fst (load_all_data fs s) = Inl e)"
proof (intro conjI impI)
  assume a: "(\<forall>src\<in>set corpus_sources. tolerable fs src) \<and> data s = []"
  then have "for_loop (load_source fs) corpus_sources s =
           (Inr (), s\<lparr>data := data s @ loaded fs corpus_sources,
                       opened := opened s @ map fst corpus_sources,
                       printed := printed s @ warnings fs corpus_sources\<rparr>)"
    by (intro load_sources_tolerant distinct_source_keys) simp_all
  with a show "load_all_data fs s =
            (Inr (), s\<lparr>data := loaded fs corpus_sources,
                        opened := opened s @ map fst corpus_sources,
                        printed := printed s @ warnings fs corpus_sources\<rparr>)"
    by (simp add: load_all_data_sources)
  show "\<forall>(path, key, warning)\<in>set corpus_sources.
                case corpus_file fs path of
                  Inr items \<Rightarrow> map_of (loaded fs corpus_sources) key = Some items
                | Inl _ \<Rightarrow> key \<notin> set (map fst (loaded fs corpus_sources))
                           \<and> warning \<in> set (warnings fs corpus_sources)"
  proof (clarify)
    fix path key warning
    assume m: "(path, key, warning) \<in> set corpus_sources"
    show "case corpus_file fs path of
                  Inr items \<Rightarrow> map_of (loaded fs corpus_sources) key = Some items
                | Inl _ \<Rightarrow> key \<notin> set (map fst (loaded fs corpus_sources))
                           \<and> warning \<in> set (warnings fs corpus_sources)"
    proof (cases "corpus_file fs path")
      case (Inl e)
      from loaded_missing[OF distinct_source_keys m Inl] Inl show ?thesis by simp
    next
      case (Inr items)
      from loaded_present[OF distinct_source_keys m Inr] Inr show ?thesis by simp
    qed
  qed
next
  assume b: "corpus_sources = pre @ (path, key, warning) # post
        \<and> (\<forall>src\<in>set pre. tolerable fs src)
        \<and> corpus_file fs path = Inl e \<and> e \<noteq> FileNotFoundError"
  then have "fst (for_loop (load_source fs) (pre @ (path, key, warning) # post) s) = Inl e"
    by (intro load_sources_failure) simp_all
  with b show "fst (load_all_data fs s) = Inl e"
    by (simp add: load_all_data_sources)
qed

theorem load_all_data_missing_files_witness:
  "(\<exists>s'. load_all_data demo_disk (fresh :: jobj proc) = (Inr (), s')
        \<and> data s' = [(cases_part @ asc ''1'', take 2 demo_records),
                      (asc ''knowledge/HS'' @ [50948, 50896, 54924], drop 2 demo_records)])
   \<and> fst (load_all_data broken_disk (fresh :: jobj proc)) = Inl JSONDecodeError"
proof -
  have a: "(\<forall>src\<in>set corpus_sources. tolerable demo_disk src) \<and> data (fresh :: jobj proc) = []"
    using demo_disk_tolerable by (simp add: fresh_def)
  have b: "corpus_sources =
             map case_source [1, 2]
               @ (asc ''knowledge/'' @ cases_part @ str_nat 3 @ asc ''.json'', cases_part @ str_nat 3,
                  asc ''Warning: '' @ cases_part @ str_nat 3 @ asc ''.json not found'')
               # (map case_source [4, 5, 6, 7, 8, 9, 10] @ map other_source other_files)
           \<and> (\<forall>src\<in>set (map case_source [1, 2]). tolerable broken_disk src)
           \<and> corpus_file broken_disk (asc ''knowledge/'' @ cases_part @ str_nat 3 @ asc ''.json'')
               = Inl JSONDecodeError
           \<and> JSONDecodeError \<noteq> FileNotFoundError"
    by (simp add: corpus_sources_split)
       (simp add: case_source_def tolerable_def broken_disk_def demo_disk_def str_nat.simps
         asc_def cases_part_def)
  from mp[OF conjunct1[OF load_all_data_missing_files[of demo_disk fresh]] a]
  have 1: "\<exists>s'. load_all_data demo_disk (fresh :: jobj proc) = (Inr (), s')
        \<and> data s' = [(cases_part @ asc ''1'', take 2 demo_records),
                      (asc ''knowledge/HS'' @ [50948, 50896, 54924], drop 2 demo_records)]"
    by (simp add: demo_disk_loaded)
  from mp[OF conjunct2[OF load_all_data_missing_files] b]
  have 2: "fst (load_all_data broken_disk (fresh :: jobj proc)) = Inl JSONDecodeError" .
  from 1 2 show ?thesis by (rule conjI)
qed

subsection \<open>The general-rules document\<close>

lemma extract_and_store_text_cases:
  "extract_and_store_text env fs json_file s =
     (case ref_file fs json_file of
        Inr entries \<Rightarrow> (Inr (extract_entries entries []), s\<lparr>opened := opened s @ [json_file]\<rparr>)
      | Inl e \<Rightarrow>
          (Inr [], s\<lparr>opened := opened s @ [json_file],
                      printed := printed s
                        @ [[50724, 47448, 32, 48156, 49373, 58, 32] @ py_exn_text env e]\<rparr>))"
  by (simp add: extract_and_store_text_def try_except_def load_ref_json_def print_line_def
      split: sum.splits)

text \<open>
  C10. \<open>extract_and_store_text\<close> never raises: whatever exception opening or parsing
  the document raises (a missing file, malformed content), it prints one message and
  returns the empty list; so the assignment of \<open>general_explanation\<close> at import
  completes with the empty list. Corpus loading, in contrast, raises on malformed content.
\<close>

theorem extract_and_store_text_swallows:
  "(\<exists>v s'. extract_and_store_text env fs json_file s = (Inr v, s'))
   \<and> (ref_file fs json_file = Inl e
        \<longrightarrow> extract_and_store_text env fs json_file s =
              (Inr [], s\<lparr>opened := opened s @ [json_file],
                          printed := printed s
                            @ [[50724, 47448, 32, 48156, 49373, 58, 32] @ py_exn_text env e]\<rparr>))
   \<and> (ref_file fs general_rules_file = Inl e
        \<longrightarrow> (\<exists>s'. module_init env fs s = (Inr (), s') \<and> general_explanation s' = []))
   \<and> (corpus_file fs (fst (case_source 1)) = Inl JSONDecodeError
        \<longrightarrow> fst (load_all_data fs s) = Inl JSONDecodeError)"
proof (intro conjI impI)
  show "\<exists>v s'. extract_and_store_text env fs json_file s = (Inr v, s')"
    by (cases "ref_file fs json_file") (simp_all add: extract_and_store_text_cases)
  show "extract_and_store_text env fs json_file s =
              (Inr [], s\<lparr>opened := opened s @ [json_file],
                          printed := printed s
                            @ [[50724, 47448, 32, 48156, 49373, 58, 32] @ py_exn_text env e]\<rparr>)"
    if "ref_file fs json_file = Inl e"
    using that by (simp add: extract_and_store_text_cases)
  show "\<exists>s'. module_init env fs s = (Inr (), s') \<and> general_explanation s' = []"
    if "ref_file fs general_rules_file = Inl e"
    using that by (simp add: module_init_def extract_and_store_text_cases)
  show "fst (load_all_data fs s) = Inl JSONDecodeError"
    if "corpus_file fs (fst (case_source 1)) = Inl JSONDecodeError"
  proof -
    have "corpus_sources = [] @ case_source 1 # tl corpus_sources"
      unfolding corpus_sources_def range_1_11 by simp
    moreover have "fst (for_loop (load_source fs)
        ([] @ (fst (case_source 1), fst (snd (case_source 1)), snd (snd (case_source 1)))
           # tl corpus_sources) s) = Inl JSONDecodeError"
      using that by (intro load_sources_failure) simp_all
    ultimately show ?thesis by (simp add: load_all_data_sources)
  qed
qed

theorem extract_and_store_text_swallows_witness:
  "extract_and_store_text demo_py broken_disk general_rules_file fresh =
     (Inr [], fresh\<lparr>opened := [general_rules_file],
                    printed := [[50724, 47448, 32, 48156, 49373, 58, 32]
                                 @ asc ''JSONDecodeError'']\<rparr>)
   \<and> (\<exists>s'. module_init demo_py broken_disk fresh = (Inr (), s') \<and> general_explanation s' = [])"
proof -
  have h: "ref_file broken_disk general_rules_file = Inl JSONDecodeError"
    by (simp add: broken_disk_def)
  note t = extract_and_store_text_swallows[of demo_py broken_disk general_rules_file fresh
      JSONDecodeError]
  from mp[OF conjunct1[OF conjunct2[OF t]] h]
  have 1: "extract_and_store_text demo_py broken_disk general_rules_file fresh =
     (Inr [], fresh\<lparr>opened := [general_rules_file],
                    printed := [[50724, 47448, 32, 48156, 49373, 58, 32]
                                 @ asc ''JSONDecodeError'']\<rparr>)"
    by (simp add: fresh_def demo_py_def ascii_py_def)
  from mp[OF conjunct1[OF conjunct2[OF conjunct2[OF t]]] h]
  have 2: "\<exists>s'. module_init demo_py broken_disk fresh = (Inr (), s') \<and> general_explanation s' = []" .
  from 1 2 show ?thesis by (rule conjI)
qed

section \<open>Code extraction\<close>

lemma collect_codes_first_seen:
  "collect_codes env ms acc =
     acc @ filter (\<lambda>c. c \<notin> set acc)
             (first_seen (filter (\<lambda>c. c \<noteq> []) (map (filter (py_isdigit env)) ms)))"
proof (induction ms arbitrary: acc)
  case Nil
  then show ?case by simp
next
  case (Cons raw ms)
  let ?code = "filter (py_isdigit env) raw"
  let ?rest = "first_seen (filter (\<lambda>c. c \<noteq> []) (map (filter (py_isdigit env)) ms))"
  show ?case
  proof (cases "?code \<noteq> [] \<and> ?code \<notin> set acc")
    case True
    have "filter (\<lambda>c. c \<notin> set (acc @ [?code])) ?rest
            = filter (\<lambda>c. c \<notin> set acc) (filter (\<lambda>y. y \<noteq> ?code) ?rest)"
      by (auto intro: filter_cong)
    with True show ?thesis by (simp add: Cons.IH Let_def)
  next
    case False
    show ?thesis
    proof (cases "?code = []")
      case True
      then show ?thesis by (simp add: Cons.IH Let_def)
    next
      case nonempty: False
      with False have mem: "?code \<in> set acc" by simp
      have "filter (\<lambda>c. c \<notin> set acc) (filter (\<lambda>y. y \<noteq> ?code) ?rest)
              = filter (\<lambda>c. c \<notin> set acc) ?rest"
        using mem by (auto intro: filter_cong)
      with nonempty mem show ?thesis by (simp add: Cons.IH Let_def)
    qed
  qed
qed

lemma extract_hs_codes_first_seen:
  "extract_hs_codes env t =
     first_seen (filter (\<lambda>c. c \<noteq> []) (map (filter (py_isdigit env)) (hs_findall env None 0 t)))"
  by (simp add: extract_hs_codes_def collect_codes_first_seen)

lemmas hs_defs = hs_match_at_def hs_digits_def word_boundary_def

lemma extract_example:
  assumes "\<forall>c<128. py_isword env c = ascii_isword c \<and> py_isspace env c = ascii_isspace c
                    \<and> py_isdigit env c = ascii_isdigit c"
  shows "extract_hs_codes env (asc ''HS 8517.62, also 8517'') = [asc ''851762'', asc ''8517'']"
  using assms
  by (simp add: extract_hs_codes_def hs_defs asc_def ascii_isword_def ascii_isspace_def
      ascii_isdigit_def numeral_3_eq_3)

lemma demo_py_ascii:
  "\<forall>c<128. py_isword demo_py c = ascii_isword c \<and> py_isspace demo_py c = ascii_isspace c
                  \<and> py_isdigit demo_py c = ascii_isdigit c"
  by (simp add: demo_py_def ascii_py_def)

text \<open>
  C6. For every text, \<open>extract_hs_codes\<close> returns the codes of the matches in the order
  of their first occurrence, a code that was already collected being skipped; every
  returned code is non-empty and consists of digits only, all other characters of the
  match being removed. On \<open>HS 8517.62, also 8517\<close> it returns \<open>851762\<close> and
  \<open>8517\<close>, for every interpreter whose character classes are the ASCII ones below 128.
\<close>

theorem extract_hs_codes_normalized:
  "distinct (extract_hs_codes env t)
   \<and> (\<forall>code\<in>set (extract_hs_codes env t). code \<noteq> [] \<and> (\<forall>c\<in>set code. py_isdigit env c))
   \<and> extract_hs_codes env t =
        first_seen (filter (\<lambda>c. c \<noteq> [])
                      (map (filter (py_isdigit env)) (hs_findall env None 0 t)))
   \<and> ((\<forall>c<128. py_isword env c = ascii_isword c \<and> py_isspace env c = ascii_isspace c
                  \<and> py_isdigit env c = ascii_isdigit c)
        \<longrightarrow> extract_hs_codes env (asc ''HS 8517.62, also 8517'') = [asc ''851762'', asc ''8517''])"
proof (intro conjI impI)
  show "distinct (extract_hs_codes env t)"
    by (simp add: extract_hs_codes_first_seen distinct_first_seen)
  show "\<forall>code\<in>set (extract_hs_codes env t). code \<noteq> [] \<and> (\<forall>c\<in>set code. py_isdigit env c)"
    by (auto simp: extract_hs_codes_first_seen set_first_seen)
  show "extract_hs_codes env t =
        first_seen (filter (\<lambda>c. c \<noteq> [])
                      (map (filter (py_isdigit env)) (hs_findall env None 0 t)))"
    by (rule extract_hs_codes_first_seen)
  show "extract_hs_codes env (asc ''HS 8517.62, also 8517'') = [asc ''851762'', asc ''8517'']"
    if "\<forall>c<128. py_isword env c = ascii_isword c \<and> py_isspace env c = ascii_isspace c
                  \<and> py_isdigit env c = ascii_isdigit c"
    using that by (rule extract_example)
qed

theorem extract_hs_codes_normalized_witness:
  "extract_hs_codes demo_py (asc ''HS 8517.62, also 8517'') = [asc ''851762'', asc ''8517'']
   \<and> asc ''851762'' \<noteq> [] \<and> list_all (py_isdigit demo_py) (asc ''851762'')"
proof -
  note t = extract_hs_codes_normalized[of demo_py "asc ''HS 8517.62, also 8517''"]
  from mp[OF conjunct2[OF conjunct2[OF conjunct2[OF t]]] demo_py_ascii]
  have 1: "extract_hs_codes demo_py (asc ''HS 8517.62, also 8517'') = [asc ''851762'', asc ''8517'']" .
  then have "asc ''851762'' \<in> set (extract_hs_codes demo_py (asc ''HS 8517.62, also 8517''))"
    by simp
  with conjunct1[OF conjunct2[OF t]]
  have "asc ''851762'' \<noteq> [] \<and> (\<forall>c\<in>set (asc ''851762''). py_isdigit demo_py c)"
    by blast
  with 1 show ?thesis by (simp add: list_all_iff)
qed

section \<open>Question classification\<close>

lemma classify_question_cases:
  "fst (classify_question env llm user_input key s) =
     (case llm (prompt_head @ user_input @ [10, 45813, 48320, 58]) of
        Inl e \<Rightarrow> Inr (asc ''hs_classification'')
      | Inr response \<Rightarrow>
          if normalized env response \<in> set labels then Inr (normalized env response)
          else Inr (asc ''hs_classification''))"
  by (simp add: classify_question_def try_except_def Let_def normalized_def split: sum.splits)

lemma fallback_label: "asc ''hs_classification'' \<in> set labels"
  by (simp add: labels_def)

text \<open>
  C9. For every user input and every behaviour of the collaborator, \<open>classify_question\<close>
  completes with one of the three labels. When the collaborator raises, the result is the
  fallback \<open>hs_classification\<close>. When it answers, the response that is compared with
  the labels is \<open>response.text.strip().lower()\<close>: if it is one of the labels it is the
  result, and if it is outside the set the result is the fallback.
\<close>

theorem classify_question_closed:
  "(\<exists>label. fst (classify_question env llm user_input key s) = Inr label \<and> label \<in> set labels)
   \<and> (llm (prompt_head @ user_input @ [10, 45813, 48320, 58]) = Inl e
        \<longrightarrow> fst (classify_question env llm user_input key s) = Inr (asc ''hs_classification''))
   \<and> (llm (prompt_head @ user_input @ [10, 45813, 48320, 58]) = Inr response
        \<longrightarrow> fst (classify_question env llm user_input key s) =
              Inr (if normalized env response \<in> set labels then normalized env response
                   else asc ''hs_classification''))"
proof (intro conjI impI)
  show "\<exists>label. fst (classify_question env llm user_input key s) = Inr label \<and> label \<in> set labels"
    using fallback_label
    by (cases "llm (prompt_head @ user_input @ [10, 45813, 48320, 58])")
       (simp_all add: classify_question_cases)
  show "fst (classify_question env llm user_input key s) = Inr (asc ''hs_classification'')"
    if "llm (prompt_head @ user_input @ [10, 45813, 48320, 58]) = Inl e"
    using that by (simp add: classify_question_cases)
  show "fst (classify_question env llm user_input key s) =
              Inr (if normalized env response \<in> set labels then normalized env response
                   else asc ''hs_classification'')"
    if "llm (prompt_head @ user_input @ [10, 45813, 48320, 58]) = Inr response"
    using that by (simp add: classify_question_cases)
qed

theorem classify_question_closed_witness:
  "fst (classify_question demo_py (\<lambda>prompt. Inl RuntimeError) (asc ''8517?'') None fresh)
     = Inr (asc ''hs_classification'')
   \<and> fst (classify_question demo_py (\<lambda>prompt. Inr (asc ''web search, I think''))
            (asc ''8517?'') None fresh)
     = Inr (asc ''hs_classification'')"
proof -
  have n: "normalized demo_py (asc ''web search, I think'') \<notin> set labels"
    by (simp add: normalized_def demo_py_def ascii_py_def ascii_lower_def ascii_isspace_def
        str_strip_def labels_def asc_def)
  from classify_question_closed[of demo_py "\<lambda>prompt. Inl RuntimeError" "asc ''8517?''" None
      fresh RuntimeError]
  have 1: "fst (classify_question demo_py (\<lambda>prompt. Inl RuntimeError) (asc ''8517?'') None fresh)
     = Inr (asc ''hs_classification'')" by blast
  from classify_question_closed[of demo_py "\<lambda>prompt. Inr (asc ''web search, I think'')"
      "asc ''8517?''" None fresh _ "asc ''web search, I think''"] n
  have 2: "fst (classify_question demo_py (\<lambda>prompt. Inr (asc ''web search, I think''))
            (asc ''8517?'') None fresh)
     = Inr (asc ''hs_classification'')" by simp
  from 1 2 show ?thesis by (rule conjI)
qed

section \<open>Explanations for a list of codes\<close>

lemma extract_entries_acc:
  "extract_entries entries acc =
     acc @ map general_entry (filter (\<lambda>entry. \<not> skipped entry) entries)"
  by (induction entries arbitrary: acc) (auto simp: Let_def general_entry_def skipped_def)

lemma explanation_block_exact:
  assumes "explanation_block env general hs_code e2 e4 e6 = Inr b"
  shows "\<exists>t1 t2 t3.
           dict_getitem e2 (asc ''text'') = Inr t1
         \<and> dict_getitem e4 (asc ''text'') = Inr t2
         \<and> dict_getitem e6 (asc ''text'') = Inr t3
         \<and> b = block_head env general hs_code
                 @ [48512, 32, 54644, 49444, 58, 10] @ t1 @ [10, 10]
                 @ [47448, 32, 54644, 49444, 58, 10] @ t2 @ [10, 10]
                 @ [54840, 32, 54644, 49444, 58, 10] @ t3 @ [10]"
  using assms by (auto simp: explanation_block_def block_head_def split: sum.splits)

lemma lookup_hscode_cases:
  "lookup_hscode env fs hs_code json_file s =
     (case ref_file fs json_file of
        Inr entries \<Rightarrow>
          (Inr (if 2 \<le> length hs_code
                then next_or (\<lambda>entry. dict_get entry (asc ''code'') [] = take 2 hs_code)
                       entries section_placeholder
                else section_placeholder,
                if 4 \<le> length hs_code
                then next_or (\<lambda>entry. dict_get entry (asc ''code'') [] = take 4 hs_code)
                       entries heading_placeholder
                else heading_placeholder,
                if 6 \<le> length hs_code
                then next_or (\<lambda>entry. dict_get entry (asc ''code'') [] = take 6 hs_code)
                       entries subheading_placeholder
                else subheading_placeholder),
           s\<lparr>opened := opened s @ [json_file]\<rparr>)
      | Inl e \<Rightarrow>
          (Inr (error_entry, error_entry, error_entry),
           s\<lparr>opened := opened s @ [json_file],
             printed := printed s
               @ [[72, 83, 32, 53076, 46300, 32, 51312, 54924, 32, 50724, 47448, 58, 32]
                  @ py_exn_text env e]\<rparr>))"
  by (simp add: lookup_hscode_def try_except_def load_ref_json_def print_line_def Let_def
      split: sum.splits)

lemma next_or_truthy:
  "placeholder \<noteq> [] \<Longrightarrow> c \<noteq> []
     \<Longrightarrow> next_or (\<lambda>entry. dict_get entry (asc ''code'') [] = c) entries placeholder \<noteq> []"
  by (auto simp: next_or_def dict_get_def split: option.splits dest!: find_Some_iff[THEN iffD1])

lemma level_truthy:
  assumes "placeholder \<noteq> []" and "0 < l"
  shows "(if l \<le> length hs_code
          then next_or (\<lambda>entry. dict_get entry (asc ''code'') [] = take l hs_code)
                 entries placeholder
          else placeholder) \<noteq> []"
proof (cases "l \<le> length hs_code")
  case True
  with assms(2) have "take l hs_code \<noteq> []" by auto
  from next_or_truthy[OF assms(1) this] True show ?thesis by simp
next
  case False
  with assms(1) show ?thesis by simp
qed

lemma lookup_hscode_truthy:
  assumes "lookup_hscode env fs hs_code json_file s = (Inr (e2, e4, e6), s')"
  shows "e2 \<noteq> [] \<and> e4 \<noteq> [] \<and> e6 \<noteq> []"
proof (cases "ref_file fs json_file")
  case (Inl e)
  with assms show ?thesis by (auto simp: lookup_hscode_cases error_entry_def)
next
  case (Inr entries)
  have p: "section_placeholder \<noteq> []" "heading_placeholder \<noteq> []" "subheading_placeholder \<noteq> []"
    by (simp_all add: section_placeholder_def heading_placeholder_def subheading_placeholder_def)
  from assms Inr show ?thesis
    using level_truthy[OF p(1), of 2 hs_code entries] level_truthy[OF p(2), of 4 hs_code entries]
      level_truthy[OF p(3), of 6 hs_code entries]
    by (simp add: lookup_hscode_cases del: One_nat_def)
qed

lemma lookup_hscode_state:
  "\<exists>triple s'. lookup_hscode env fs hs_code json_file s = (Inr triple, s')
      \<and> opened s' = opened s @ [json_file]
      \<and> general_explanation s' = general_explanation s"
  by (cases "ref_file fs json_file") (simp_all add: lookup_hscode_cases)

lemma explanations_loop_opened:
  "\<exists>n. opened (snd (explanations_loop env fs codes acc s))
           = opened s @ replicate n explanations_file
       \<and> n \<le> length codes \<and> (codes \<noteq> [] \<longrightarrow> 0 < n)
       \<and> (\<forall>out s'. explanations_loop env fs codes acc s = (Inr out, s') \<longrightarrow> n = length codes)"
proof (induction codes arbitrary: acc s)
  case Nil
  then show ?case by simp
next
  case (Cons hs_code codes)
  from lookup_hscode_state[of env fs hs_code explanations_file s]
  obtain e2 e4 e6 s1 where
    l: "lookup_hscode env fs hs_code explanations_file s = (Inr (e2, e4, e6), s1)"
    and o1: "opened s1 = opened s @ [explanations_file]"
    by (metis prod_cases3)
  show ?case
  proof (cases "e2 \<noteq> [] \<and> e4 \<noteq> [] \<and> e6 \<noteq> []")
    case False
    from Cons.IH[of acc s1] obtain n where
      n: "opened (snd (explanations_loop env fs codes acc s1))
            = opened s1 @ replicate n explanations_file"
        "n \<le> length codes"
        "\<forall>out s'. explanations_loop env fs codes acc s1 = (Inr out, s') \<longrightarrow> n = length codes"
      by blast
    have r: "explanations_loop env fs (hs_code # codes) acc s = explanations_loop env fs codes acc s1"
      using l False by auto
    from n o1 show ?thesis unfolding r
      by (intro exI[of _ "Suc n"]) simp
  next
    case True
    show ?thesis
    proof (cases "explanation_block env (general_explanation s1) hs_code e2 e4 e6")
      case (Inl e)
      with l True have r: "explanations_loop env fs (hs_code # codes) acc s = (Inl e, s1)"
        by simp
      from o1 show ?thesis unfolding r
        by (intro exI[of _ 1]) simp
    next
      case (Inr block)
      from Cons.IH[of "acc @ block" s1] obtain n where
        n: "opened (snd (explanations_loop env fs codes (acc @ block) s1))
              = opened s1 @ replicate n explanations_file"
          "n \<le> length codes"
          "\<forall>out s'. explanations_loop env fs codes (acc @ block) s1 = (Inr out, s')
               \<longrightarrow> n = length codes"
        by blast
      have r: "explanations_loop env fs (hs_code # codes) acc s
                 = explanations_loop env fs codes (acc @ block) s1"
        using l True Inr by simp
      from n o1 show ?thesis unfolding r
        by (intro exI[of _ "Suc n"]) simp
    qed
  qed
qed

lemma lookup_hscode_result_state:
  "fst (lookup_hscode env fs hs_code json_file s1) = fst (lookup_hscode env fs hs_code json_file s)"
  by (cases "ref_file fs json_file") (simp_all add: lookup_hscode_cases)

lemma explained_block_state:
  "general_explanation s1 = general_explanation s
     \<Longrightarrow> explained_block env fs s1 hs_code block = explained_block env fs s hs_code block"
  by (simp add: explained_block_def lookup_hscode_result_state[of env fs hs_code _ s1 s])

lemma explanations_loop_blocks:
  assumes "explanations_loop env fs codes acc s = (Inr out, s')"
  shows "\<exists>blocks. out = acc @ concat blocks
           \<and> list_all2 (explained_block env fs s) codes blocks"
  using assms
proof (induction codes arbitrary: acc s)
  case Nil
  then show ?case by simp
next
  case (Cons hs_code codes)
  from lookup_hscode_state[of env fs hs_code explanations_file s]
  obtain e2 e4 e6 s1 where
    l: "lookup_hscode env fs hs_code explanations_file s = (Inr (e2, e4, e6), s1)"
    and g1: "general_explanation s1 = general_explanation s"
    by (metis prod_cases3)
  have truthy: "e2 \<noteq> [] \<and> e4 \<noteq> [] \<and> e6 \<noteq> []"
    using l lookup_hscode_truthy[of env fs hs_code explanations_file s] by simp
  show ?case
  proof (cases "explanation_block env (general_explanation s1) hs_code e2 e4 e6")
    case (Inl e)
    with l truthy Cons.prems show ?thesis by simp
  next
    case (Inr block)
    with l truthy Cons.prems
    have "explanations_loop env fs codes (acc @ block) s1 = (Inr out, s')" by simp
    from Cons.IH[OF this] obtain blocks where
      b: "out = (acc @ block) @ concat blocks"
        "list_all2 (explained_block env fs s1) codes blocks" by blast
    have same: "explained_block env fs s1 = explained_block env fs s"
      by (intro ext) (rule explained_block_state[OF g1])
    from explanation_block_exact[OF Inr] l g1
    have "explained_block env fs s hs_code block"
      by (auto simp: explained_block_def)
    with b same show ?thesis
      by (intro exI[of _ "block # blocks"]) simp
  qed
qed

lemma level_has_text:
  assumes "map_of placeholder (asc ''text'') \<noteq> None"
    and "\<forall>entry\<in>set entries. map_of entry (asc ''text'') \<noteq> None"
  shows "map_of (if l \<le> length hs_code
                 then next_or (\<lambda>entry. dict_get entry (asc ''code'') [] = take l hs_code)
                        entries placeholder
                 else placeholder) (asc ''text'') \<noteq> None"
proof (cases "find (\<lambda>entry. dict_get entry (asc ''code'') [] = take l hs_code) entries")
  case None
  with assms(1) show ?thesis by (simp add: next_or_def)
next
  case (Some x)
  then have "x \<in> set entries" by (auto simp: find_Some_iff)
  with assms Some show ?thesis by (simp add: next_or_def)
qed

lemma lookup_hscode_has_text:
  assumes "lookup_hscode env fs hs_code json_file s = (Inr (e2, e4, e6), s')"
    and "\<forall>entries. ref_file fs json_file = Inr entries
           \<longrightarrow> (\<forall>entry\<in>set entries. map_of entry (asc ''text'') \<noteq> None)"
  shows "map_of e2 (asc ''text'') \<noteq> None \<and> map_of e4 (asc ''text'') \<noteq> None
           \<and> map_of e6 (asc ''text'') \<noteq> None"
proof (cases "ref_file fs json_file")
  case (Inl e)
  with assms(1) show ?thesis by (auto simp: lookup_hscode_cases error_entry_def)
next
  case (Inr entries)
  with assms(2) have a: "\<forall>entry\<in>set entries. map_of entry (asc ''text'') \<noteq> None" by simp
  have p: "map_of section_placeholder (asc ''text'') \<noteq> None"
    "map_of heading_placeholder (asc ''text'') \<noteq> None"
    "map_of subheading_placeholder (asc ''text'') \<noteq> None"
    by (simp_all add: section_placeholder_def heading_placeholder_def subheading_placeholder_def)
  from assms(1) Inr show ?thesis
    using level_has_text[OF p(1) a, of 2 hs_code] level_has_text[OF p(2) a, of 4 hs_code]
      level_has_text[OF p(3) a, of 6 hs_code]
    by (simp add: lookup_hscode_cases del: One_nat_def)
qed

lemma explanation_block_completes:
  "map_of e2 (asc ''text'') \<noteq> None \<Longrightarrow> map_of e4 (asc ''text'') \<noteq> None
     \<Longrightarrow> map_of e6 (asc ''text'') \<noteq> None
     \<Longrightarrow> \<exists>block. explanation_block env general hs_code e2 e4 e6 = Inr block"
  by (auto simp: explanation_block_def dict_getitem_def)

lemma explanations_loop_completes:
  assumes "\<forall>entries. ref_file fs explanations_file = Inr entries
           \<longrightarrow> (\<forall>entry\<in>set entries. map_of entry (asc ''text'') \<noteq> None)"
  shows "\<exists>out s'. explanations_loop env fs codes acc s = (Inr out, s')"
proof (induction codes arbitrary: acc s)
  case Nil
  then show ?case by simp
next
  case (Cons hs_code codes)
  from lookup_hscode_state[of env fs hs_code explanations_file s]
  obtain e2 e4 e6 s1 where
    l: "lookup_hscode env fs hs_code explanations_file s = (Inr (e2, e4, e6), s1)"
    by (metis prod_cases3)
  from lookup_hscode_truthy[OF l] have truthy: "e2 \<noteq> [] \<and> e4 \<noteq> [] \<and> e6 \<noteq> []" .
  from lookup_hscode_has_text[OF l assms] explanation_block_completes
  obtain block where "explanation_block env (general_explanation s1) hs_code e2 e4 e6 = Inr block"
    by blast
  with l truthy Cons.IH[of "acc @ block" s1] show ?case by simp
qed

lemma load_sources_opened:
  "for_loop (load_source fs) srcs s = (Inr (), s') \<Longrightarrow> opened s' = opened s @ map fst srcs"
proof (induction srcs arbitrary: s)
  case Nil
  then show ?case by simp
next
  case (Cons src srcs)
  obtain path key warning where src: "src = (path, key, warning)" by (cases src)
  show ?case
  proof (cases "load_source fs (path, key, warning) s")
    case (Pair r s1)
    show ?thesis
    proof (cases r)
      case (Inl e)
      with Pair Cons.prems src show ?thesis by simp
    next
      case (Inr u)
      with Pair have o: "opened s1 = opened s @ [path]"
        by (auto simp: load_source_step split: sum.splits if_splits)
      from Inr Pair Cons.prems src have "for_loop (load_source fs) srcs s1 = (Inr (), s')" by simp
      from Cons.IH[OF this] o src show ?thesis by simp
    qed
  qed
qed

lemma manager_init_opened:
  assumes "manager_init env fs s = (Inr (), s')"
  shows "opened s' = opened s @ map fst corpus_sources"
proof (cases "load_all_data fs (s\<lparr>data := [], search_index := []\<rparr>)")
  case (Pair r s1)
  show ?thesis
  proof (cases r)
    case (Inl e)
    with Pair assms show ?thesis by (simp add: manager_init_def)
  next
    case (Inr u)
    with Pair have "for_loop (load_source fs) corpus_sources (s\<lparr>data := [], search_index := []\<rparr>)
                      = (Inr (), s1)"
      by (simp add: load_all_data_sources)
    from load_sources_opened[OF this] have "opened s1 = opened s @ map fst corpus_sources" by simp
    moreover from Pair Inr assms have "s' = build_search_index env s1"
      by (simp add: manager_init_def)
    ultimately show ?thesis by (simp add: build_search_index_def)
  qed
qed

lemma module_init_opened:
  "opened (snd (module_init env fs s)) = opened s @ [general_rules_file]"
  by (cases "ref_file fs general_rules_file")
     (simp_all add: module_init_def extract_and_store_text_cases)

lemma demo_imported_state:
  "demo_imported =
     fresh\<lparr>general_explanation := [asc ''A'' @ [10] @ asc ''B'', asc ''C'' @ [10]],
            opened := [general_rules_file]\<rparr>"
  by (simp add: demo_imported_def module_init_def extract_and_store_text_cases demo_disk_def
      demo_rules_def fresh_def dict_get_def asc_def general_rules_file_def explanations_file_def)

lemma demo_entries_have_text:
  "\<forall>entries. ref_file demo_disk explanations_file = Inr entries
     \<longrightarrow> (\<forall>entry\<in>set entries. map_of entry (asc ''text'') \<noteq> None)"
  by (simp add: demo_disk_def demo_entries_def asc_def)

lemma demo_explanations:
  "get_hs_explanations demo_py demo_disk [asc ''8517''] demo_imported =
     (Inr ([10, 10, 72, 83, 32, 53076, 46300, 32] @ asc ''8517''
             @ [50640, 32, 45824, 54620, 32, 54644, 49444, 58, 10]
           @ [54644, 49444, 49436, 32, 53685, 52825, 58, 10]
             @ asc ''['' @ [39] @ asc ''A'' @ [92] @ asc ''nB'' @ [39] @ asc '', ''
               @ [39] @ asc ''C'' @ [92] @ asc ''n'' @ [39] @ asc '']'' @ [10, 10]
           @ [48512, 32, 54644, 49444, 58, 10] @ asc ''Section 85'' @ [10, 10]
           @ [47448, 32, 54644, 49444, 58, 10] @ asc ''Heading 8517'' @ [10, 10]
           @ [54840, 32, 54644, 49444, 58, 10]
             @ [54644, 45817, 32, 54840, 50640, 32, 45824, 54620, 32, 49444, 47749, 51012,
                32, 52286, 51012, 32, 49688, 32, 50630, 49845, 45768, 45796, 46] @ [10]),
      demo_imported\<lparr>opened := [general_rules_file, explanations_file]\<rparr>)"
  by (simp add: get_hs_explanations_def lookup_hscode_cases explanation_block_def
      dict_getitem_def next_or_def dict_get_def demo_imported_state fresh_def
      demo_disk_def demo_entries_def demo_py_def ascii_py_def repr_list_def repr_str_def
      subheading_placeholder_def asc_def general_rules_file_def explanations_file_def)

subsection \<open>What a block consists of\<close>

text \<open>
  C7, as the code has it. The module global \<open>general_explanation\<close> is a list with one
  string, \<open>head1\<close>, a newline and \<open>text\<close>, for each entry of the general-rules
  document in document order, an entry being skipped exactly when both fields are empty
  or absent. Whenever \<open>get_hs_explanations\<close> completes, its result is the concatenation
  of one block per code, in order, and each block is the header line that names the code,
  then the label of the general rules and that list as an f-string formats a list,
  followed by two newlines, and then the three labelled texts of the section, heading and
  subheading entries that \<open>lookup_hscode\<close> returns for the code. It completes when every
  entry of the explanation document has a \<open>text\<close> field.
\<close>

theorem explanation_blocks:
  "(ref_file fs general_rules_file = Inr entries
      \<longrightarrow> general_explanation (snd (module_init env fs s0))
            = map general_entry (filter (\<lambda>entry. \<not> skipped entry) entries))
   \<and> (get_hs_explanations env fs codes s = (Inr out, s')
        \<longrightarrow> (\<exists>blocks. out = concat blocks
               \<and> list_all2 (explained_block env fs s) codes blocks))
   \<and> ((\<forall>entries. ref_file fs explanations_file = Inr entries
           \<longrightarrow> (\<forall>entry\<in>set entries. map_of entry (asc ''text'') \<noteq> None))
        \<longrightarrow> (\<exists>out s'. get_hs_explanations env fs codes s = (Inr out, s')))"
proof (intro conjI impI)
  show "general_explanation (snd (module_init env fs s0))
            = map general_entry (filter (\<lambda>entry. \<not> skipped entry) entries)"
    if "ref_file fs general_rules_file = Inr entries"
    using that by (simp add: module_init_def extract_and_store_text_cases extract_entries_acc)
  show "\<exists>blocks. out = concat blocks
               \<and> list_all2 (explained_block env fs s) codes blocks"
    if "get_hs_explanations env fs codes s = (Inr out, s')"
    using explanations_loop_blocks[of env fs codes "[]" s out s'] that
    by (simp add: get_hs_explanations_def)
  show "\<exists>out s'. get_hs_explanations env fs codes s = (Inr out, s')"
    if "\<forall>entries. ref_file fs explanations_file = Inr entries
           \<longrightarrow> (\<forall>entry\<in>set entries. map_of entry (asc ''text'') \<noteq> None)"
    using explanations_loop_completes[OF that] by (simp add: get_hs_explanations_def)
qed

theorem explanation_blocks_witness:
  "general_explanation (snd (module_init demo_py demo_disk fresh))
     = map general_entry (filter (\<lambda>entry. \<not> skipped entry) demo_rules)
   \<and> (\<exists>out s'. get_hs_explanations demo_py demo_disk [asc ''8517''] demo_imported = (Inr out, s')
         \<and> explained_block demo_py demo_disk demo_imported (asc ''8517'') out)"
proof -
  have r: "ref_file demo_disk general_rules_file = Inr demo_rules"
    by (simp add: demo_disk_def general_rules_file_def explanations_file_def asc_def)
  note t = explanation_blocks[of demo_disk demo_rules demo_py fresh "[asc ''8517'']" demo_imported]
  from mp[OF conjunct1[OF t] r]
  have 1: "general_explanation (snd (module_init demo_py demo_disk fresh))
     = map general_entry (filter (\<lambda>entry. \<not> skipped entry) demo_rules)" .
  from mp[OF conjunct2[OF conjunct2[OF t]] demo_entries_have_text]
  obtain out s' where
    g: "get_hs_explanations demo_py demo_disk [asc ''8517''] demo_imported = (Inr out, s')"
    by blast
  from mp[OF conjunct1[OF conjunct2[OF explanation_blocks[of demo_disk demo_rules demo_py fresh
      "[asc ''8517'']" demo_imported out s']]] g]
  obtain blocks where b: "out = concat blocks"
    "list_all2 (explained_block demo_py demo_disk demo_imported) [asc ''8517''] blocks" by blast
  from b(2) obtain block where "blocks = [block]"
    "explained_block demo_py demo_disk demo_imported (asc ''8517'') block"
    by (auto simp: list_all2_Cons1)
  with b(1) have "explained_block demo_py demo_disk demo_imported (asc ''8517'') out"
    by simp
  with 1 g show ?thesis by blast
qed

text \<open>
  C7 as stated fails: with the general-rules entries \<open>A\<close>/\<open>B\<close> and \<open>C\<close>, the
  block for the code \<open>8517\<close> neither starts with nor contains the entries joined by
  newlines; it starts with two newlines and the header, and holds the list in its
  \<open>repr\<close> form.
\<close>

theorem explanation_block_starts_with_header:
  "\<exists>out s'. get_hs_explanations demo_py demo_disk [asc ''8517''] demo_imported = (Inr out, s')
      \<and> general_explanation demo_imported = extract_entries demo_rules []
      \<and> spec_preamble demo_rules = asc ''A'' @ [10] @ asc ''B'' @ [10] @ asc ''C'' @ [10]
      \<and> \<not> prefix (spec_preamble demo_rules) out
      \<and> \<not> sublist (spec_preamble demo_rules) out"
proof -
  have 1: "general_explanation demo_imported = extract_entries demo_rules []"
    by (simp add: demo_imported_state demo_rules_def dict_get_def asc_def)
  have 2: "spec_preamble demo_rules = asc ''A'' @ [10] @ asc ''B'' @ [10] @ asc ''C'' @ [10]"
    by (simp add: spec_preamble_def demo_rules_def general_entry_def skipped_def dict_get_def
        asc_def)
  show ?thesis
    by (intro exI conjI, rule demo_explanations, rule 1, rule 2)
       (simp_all add: 2 asc_def sublist_Cons_right)
qed

subsection \<open>Files opened\<close>

text \<open>
  C3, as the code has it. \<open>search\<close> and \<open>get_relevant_context\<close> open no file, and
  \<open>extract_hs_codes\<close> is a function of its argument alone; the corpus files are opened
  by the constructor, once each, and the general-rules file at import. But
  \<open>get_hs_explanations\<close> opens the explanation file once for every code it processes:
  at least once for a non-empty list, and once per code when it completes.
\<close>

theorem file_reads:
  "opened (snd (search env query max_results s)) = opened s
   \<and> opened (snd (get_relevant_context env query s)) = opened s
   \<and> (\<exists>n. opened (snd (get_hs_explanations env fs codes s))
             = opened s @ replicate n explanations_file
          \<and> n \<le> length codes \<and> (codes \<noteq> [] \<longrightarrow> 0 < n)
          \<and> (\<forall>out s'. get_hs_explanations env fs codes s = (Inr out, s')
                \<longrightarrow> n = length codes))
   \<and> (manager_init env fs s = (Inr (), s') \<longrightarrow> opened s' = opened s @ map fst corpus_sources)
   \<and> opened (snd (module_init env fs s)) = opened s @ [general_rules_file]"
proof (intro conjI impI)
  show "opened (snd (search env query max_results s)) = opened s"
    by (simp add: search_state)
  show "opened (snd (get_relevant_context env query s)) = opened s"
    by (simp add: context_state)
  show "\<exists>n. opened (snd (get_hs_explanations env fs codes s))
             = opened s @ replicate n explanations_file
          \<and> n \<le> length codes \<and> (codes \<noteq> [] \<longrightarrow> 0 < n)
          \<and> (\<forall>out s'. get_hs_explanations env fs codes s = (Inr out, s')
                \<longrightarrow> n = length codes)"
    using explanations_loop_opened[of env fs codes "[]" s]
    by (simp add: get_hs_explanations_def)
  show "opened s' = opened s @ map fst corpus_sources"
    if "manager_init env fs s = (Inr (), s')"
    using that by (rule manager_init_opened)
  show "opened (snd (module_init env fs s)) = opened s @ [general_rules_file]"
    by (rule module_init_opened)
qed

theorem file_reads_witness:
  "opened (snd (get_hs_explanations demo_py demo_disk [asc ''8517'', asc ''85''] demo_imported))
     = opened demo_imported @ [explanations_file, explanations_file]
   \<and> (\<exists>s'. manager_init demo_py demo_disk fresh = (Inr (), s')
          \<and> opened s' = map fst corpus_sources)"
proof -
  note t = file_reads[of demo_py "[]" 5 demo_imported demo_disk "[asc ''8517'', asc ''85'']"]
  from conjunct1[OF conjunct2[OF conjunct2[OF t]]]
  obtain n where
    n: "opened (snd (get_hs_explanations demo_py demo_disk [asc ''8517'', asc ''85''] demo_imported))
          = opened demo_imported @ replicate n explanations_file"
    and c: "\<forall>out s'. get_hs_explanations demo_py demo_disk [asc ''8517'', asc ''85''] demo_imported
                    = (Inr out, s') \<longrightarrow> n = length [asc ''8517'', asc ''85'']"
    by blast
  from explanations_loop_completes[OF demo_entries_have_text, of demo_py
      "[asc ''8517'', asc ''85'']" "[]" demo_imported]
  obtain out s' where
    "get_hs_explanations demo_py demo_disk [asc ''8517'', asc ''85''] demo_imported = (Inr out, s')"
    by (auto simp: get_hs_explanations_def)
  with c have "n = 2" by auto
  with n have 1: "opened (snd (get_hs_explanations demo_py demo_disk [asc ''8517'', asc ''85'']
      demo_imported)) = opened demo_imported @ [explanations_file, explanations_file]"
    by (simp add: numeral_2_eq_2)
  have l: "load_all_data demo_disk (fresh\<lparr>data := [], search_index := []\<rparr> :: jobj proc)
             = (Inr (), (fresh\<lparr>data := [], search_index := []\<rparr>)
                 \<lparr>data := data (fresh\<lparr>data := [], search_index := []\<rparr> :: jobj proc)
                            @ loaded demo_disk corpus_sources,
                   opened := opened (fresh\<lparr>data := [], search_index := []\<rparr> :: jobj proc)
                               @ map fst corpus_sources,
                   printed := printed (fresh\<lparr>data := [], search_index := []\<rparr> :: jobj proc)
                               @ warnings demo_disk corpus_sources\<rparr>)"
    unfolding load_all_data_sources
    by (intro load_sources_tolerant demo_disk_tolerable distinct_source_keys) simp
  then obtain s1 where m: "manager_init demo_py demo_disk fresh = (Inr (), s1)"
    by (simp add: manager_init_def)
  from mp[OF conjunct1[OF conjunct2[OF conjunct2[OF conjunct2[OF
        file_reads[of demo_py "[]" 5 fresh demo_disk "[]" s1]]]]] m]
  have "opened s1 = map fst corpus_sources" by (simp add: fresh_def)
  with m 1 show ?thesis by blast
qed

text \<open>
  C3 as stated fails: after the import has opened the general-rules file,
  \<open>get_hs_explanations\<close> for the single code \<open>8517\<close> opens the explanation file.
\<close>

theorem explanations_read_a_file:
  "opened demo_imported = [general_rules_file]
   \<and> opened (snd (get_hs_explanations demo_py demo_disk [asc ''8517''] demo_imported))
       = [general_rules_file, explanations_file]
   \<and> opened (snd (get_hs_explanations demo_py demo_disk [asc ''8517''] demo_imported))
       \<noteq> opened demo_imported"
  by (simp add: demo_explanations) (simp add: demo_imported_state)

end
